theory Spec2Isabelle
  imports Main "HOL-Library.Word" "HOL-Library.While_Combinator"
begin

section \<open>Global state of the JNI bridge (llama_jni.cpp)\<close>

text \<open>
  The translation unit keeps one model session in process-wide variables. They are
  collected in the record \<open>globals\<close>; every JNI entry point becomes a function that
  takes the record and returns it updated. Pointers are \<open>handle option\<close>
  (\<open>None\<close> is \<open>nullptr\<close>), C \<open>int\<close> and \<open>long\<close> values are \<open>int\<close> (no claim depends
  on their overflow), the two atomic 64-bit counters are 64-bit words.
\<close>

type_synonym handle = nat
type_synonym llama_token = int

text \<open>Constants of the source, lines 37 to 51.\<close>

definition kLowEndContext :: int where "kLowEndContext = 512"
definition kMidContext :: int where "kMidContext = 1024"
definition kMidHighContext :: int where "kMidHighContext = 1536"
definition kHighContext :: int where "kHighContext = 2048"
definition kLowEndBatch :: int where "kLowEndBatch = 128"
definition kHighBatch :: int where "kHighBatch = 256"
definition kLowEndMaxThreads :: int where "kLowEndMaxThreads = 4"
definition kMaxThreads :: int where "kMaxThreads = 8"
definition kLowEndMaxGenTokens :: int where "kLowEndMaxGenTokens = 256"
definition kMidMaxGenTokens :: int where "kMidMaxGenTokens = 512"
definition kHighMaxGenTokens :: int where "kHighMaxGenTokens = 768"
definition kMaxParams :: "64 word" where "kMaxParams = 7 * 1000 * 1000 * 1000"


subsection \<open>The reusable batch\<close>

text \<open>
  \<open>llama_batch\<close> as the bridge uses it: the entry count and the parallel arrays that
  \<open>batch_add\<close> writes. The arrays are lists whose length is the number of slots
  \<open>llama_batch_init\<close> allocated; a freed or never allocated batch has no slot.
\<close>

record llama_batch =
  n_tokens :: int
  token :: "llama_token list"
  pos :: "int list"
  n_seq_id :: "int list"
  seq_id :: "int list list"
  logits :: "bool list"

text \<open>\<open>llama_batch_init(n, 0, 1)\<close>: \<open>n\<close> slots, one sequence id per slot.\<close>

definition llama_batch_init :: "int \<Rightarrow> llama_batch" where
  "llama_batch_init n =
     \<lparr>n_tokens = 0, token = replicate (nat n) 0, pos = replicate (nat n) 0,
      n_seq_id = replicate (nat n) 0, seq_id = replicate (nat n) [0],
      logits = replicate (nat n) False\<rparr>"

definition llama_batch_free :: "llama_batch \<Rightarrow> llama_batch" where
  "llama_batch_free b = b\<lparr>token := [], pos := [], n_seq_id := [], seq_id := [], logits := []\<rparr>"

text \<open>Every backend object the bridge can hold; the ghost set \<open>backend_live\<close> below
  records which of them are allocated and not yet freed.\<close>

datatype resource = ModelRes handle | ContextRes handle | SamplerRes handle | BatchRes

record globals =
  g_model :: "handle option"
  g_ctx :: "handle option"
  g_sampler :: "handle option"
  g_vocab :: "handle option"
  g_is_generating :: bool
  g_generation_id :: "64 word"
  g_stop_generation_id :: "64 word"
  g_batch :: llama_batch
  g_batch_initialized :: bool
  g_batch_size :: int
  g_context_size :: int
  g_n_threads :: int
  g_max_gen_tokens :: int
  backend_live :: "resource set"

text \<open>The initialisers of lines 21 to 35.\<close>

definition initial_globals :: globals where
  "initial_globals =
     \<lparr>g_model = None, g_ctx = None, g_sampler = None, g_vocab = None,
      g_is_generating = False, g_generation_id = 0, g_stop_generation_id = 0,
      g_batch = llama_batch_free (llama_batch_init 0), g_batch_initialized = False,
      g_batch_size = 128, g_context_size = 1024, g_n_threads = 4, g_max_gen_tokens = 256,
      backend_live = {}\<rparr>"

text \<open>The resources the session variables refer to.\<close>

definition owned :: "globals \<Rightarrow> resource set" where
  "owned s =
     (case g_model s of None \<Rightarrow> {} | Some m \<Rightarrow> {ModelRes m}) \<union>
     (case g_ctx s of None \<Rightarrow> {} | Some c \<Rightarrow> {ContextRes c}) \<union>
     (case g_sampler s of None \<Rightarrow> {} | Some p \<Rightarrow> {SamplerRes p}) \<union>
     (if g_batch_initialized s then {BatchRes} else {})"

definition backend_alloc :: "resource \<Rightarrow> globals \<Rightarrow> globals" where
  "backend_alloc r s = s\<lparr>backend_live := insert r (backend_live s)\<rparr>"

definition backend_free :: "resource \<Rightarrow> globals \<Rightarrow> globals" where
  "backend_free r s = s\<lparr>backend_live := backend_live s - {r}\<rparr>"

section \<open>Device configuration\<close>

text \<open>
  What the device answers: \<open>sysinfo\<close> (\<open>None\<close> when the call fails, otherwise
  \<open>totalram\<close>, an \<open>unsigned long\<close>, and \<open>mem_unit\<close>, an \<open>unsigned int\<close>) and
  \<open>std::thread::hardware_concurrency()\<close> as the \<open>int\<close> it is assigned to.
  \<open>unsigned long\<close> and \<open>long\<close> have the 64 bits of the 64-bit Android ABIs.
\<close>

record device =
  dev_sysinfo :: "(64 word \<times> 32 word) option"
  dev_hardware_concurrency :: int

text \<open>\<open>getTotalMemoryMB\<close>, lines 59 to 65. The product and the quotient are taken in
  \<open>unsigned long\<close>, so the product wraps around at \<open>2 ^ 64\<close>; the result is read as
  a \<open>long\<close>.\<close>

definition getTotalMemoryMB :: "device \<Rightarrow> int" where
  "getTotalMemoryMB d =
     (case dev_sysinfo d of
        Some (totalram, mem_unit) \<Rightarrow>
          sint ((totalram * ucast mem_unit) div (1024 * 1024) :: 64 word)
      | None \<Rightarrow> 4096)"

text \<open>Lines 68 and 69: the core count as \<open>getThreadCount\<close> reads it, one core when
  the platform reports none.\<close>

definition cpu_cores :: "device \<Rightarrow> int" where
  "cpu_cores d =
     (let cpuCores = dev_hardware_concurrency d
      in if cpuCores \<le> 0 then 1 else cpuCores)"

text \<open>\<open>getThreadCount\<close>, lines 67 to 72.\<close>

definition getThreadCount :: "device \<Rightarrow> bool \<Rightarrow> int" where
  "getThreadCount d lowEnd =
     (let cpuCores = cpu_cores d;
          cap = (if lowEnd then kLowEndMaxThreads else kMaxThreads)
      in min cpuCores cap)"

definition applyDeviceConfig :: "device \<Rightarrow> globals \<Rightarrow> globals" where
  "applyDeviceConfig d s =
     (let totalMB = getTotalMemoryMB d;
          lowEnd = (totalMB \<le> 3072);
          s = (if totalMB \<le> 3072 then
                 s\<lparr>g_context_size := kLowEndContext, g_batch_size := kLowEndBatch,
                   g_max_gen_tokens := kLowEndMaxGenTokens\<rparr>
               else if totalMB \<le> 4096 then
                 s\<lparr>g_context_size := kMidContext, g_batch_size := kHighBatch,
                   g_max_gen_tokens := 384\<rparr>
               else if totalMB \<le> 6144 then
                 s\<lparr>g_context_size := kMidHighContext, g_batch_size := kHighBatch,
                   g_max_gen_tokens := kMidMaxGenTokens\<rparr>
               else if totalMB \<le> 8192 then
                 s\<lparr>g_context_size := kHighContext, g_batch_size := kHighBatch,
                   g_max_gen_tokens := kMidMaxGenTokens\<rparr>
               else
                 s\<lparr>g_context_size := kHighContext, g_batch_size := kHighBatch,
                   g_max_gen_tokens := kHighMaxGenTokens\<rparr>)
      in s\<lparr>g_n_threads := getThreadCount d lowEnd\<rparr>)"

section \<open>Loading and unloading the model\<close>

text \<open>
  What the inference backend answers during one \<open>loadModel\<close> call. The backend is
  not part of the repository, so its results are inputs of the model:
  \<open>llama_model_load_from_file\<close>, \<open>llama_model_get_vocab\<close> and
  \<open>llama_init_from_model\<close> return a handle or \<open>nullptr\<close>; the sampler chain
  constructor's result is used unchecked by the source and is a handle.
\<close>

record load_env =
  env_device :: device
  env_model :: "handle option"
  env_vocab :: "handle option"
  env_n_ctx_train :: int
  env_ctx :: "handle option"
  env_n_params :: "64 word"
  env_desc :: string
  env_sampler :: handle

text \<open>\<open>tolower\<close> in the C locale, and \<open>std::string::find\<close>.\<close>

definition tolower_char :: "char \<Rightarrow> char" where
  "tolower_char c =
     (let n = (of_char c :: nat) in if 65 \<le> n \<and> n \<le> 90 then char_of (n + 32) else c)"

fun starts_with :: "string \<Rightarrow> string \<Rightarrow> bool" where
  "starts_with _ [] = True"
| "starts_with [] (p # ps) = False"
| "starts_with (c # cs) (p # ps) = (c = p \<and> starts_with cs ps)"

fun str_find :: "string \<Rightarrow> string \<Rightarrow> nat option" where
  "str_find [] pat = (if pat = [] then Some 0 else None)"
| "str_find (c # cs) pat =
     (if starts_with (c # cs) pat then Some 0 else map_option Suc (str_find cs pat))"

text \<open>Lines 263 to 269: the description is read into a 256 byte buffer, lower-cased and
  searched for the three markers. The result is the negation of the rejecting test.\<close>

definition quantization_accepted :: "string \<Rightarrow> bool" where
  "quantization_accepted d =
     (let desc_str = map tolower_char (take 255 d)
      in \<not> (str_find desc_str ''q4'' = None \<and> str_find desc_str ''q5'' = None \<and>
            str_find desc_str ''quantized'' = None))"

text \<open>Lines 176 to 192: the clean-up of any existing state at the start of a load.\<close>

definition release_existing :: "globals \<Rightarrow> globals" where
  "release_existing s =
     (let s = (if g_batch_initialized s then
                 (backend_free BatchRes s)\<lparr>g_batch := llama_batch_free (g_batch s),
                   g_batch_initialized := False\<rparr>
               else s);
          s = (case g_sampler s of
                 Some p \<Rightarrow> (backend_free (SamplerRes p) s)\<lparr>g_sampler := None\<rparr>
               | None \<Rightarrow> s);
          s = (case g_ctx s of
                 Some c \<Rightarrow> (backend_free (ContextRes c) s)\<lparr>g_ctx := None\<rparr>
               | None \<Rightarrow> s);
          s = (case g_model s of
                 Some m \<Rightarrow> (backend_free (ModelRes m) s)\<lparr>g_model := None\<rparr>
               | None \<Rightarrow> s)
      in s\<lparr>g_vocab := None\<rparr>)"

text \<open>
  \<open>Java_com_dannyk_xirea_ai_LlamaCpp_loadModel\<close>, lines 166 to 299. The requested
  thread and GPU layer counts are parameters the source never reads. The result is
  the returned \<open>jboolean\<close> and the new state.
\<close>

definition loadModel :: "load_env \<Rightarrow> int \<Rightarrow> int \<Rightarrow> int \<Rightarrow> globals \<Rightarrow> bool \<times> globals" where
  "loadModel env nCtx nThreads nGpuLayers s =
     (let s = release_existing s;
          s = applyDeviceConfig (env_device env) s
      in case env_model env of
           None \<Rightarrow> (False, s)
         | Some m \<Rightarrow>
             let s = (backend_alloc (ModelRes m) s)\<lparr>g_model := Some m\<rparr>;
                 s = s\<lparr>g_vocab := env_vocab env\<rparr>
             in if g_vocab s = None then
                  (False, (backend_free (ModelRes m) s)\<lparr>g_model := None\<rparr>)
                else
                  let modelTrainCtx = env_n_ctx_train env;
                      deviceCtx = g_context_size s;
                      s = s\<lparr>g_context_size := min nCtx (min deviceCtx modelTrainCtx)\<rparr>
                  in (case env_ctx env of
                       None \<Rightarrow>
                         (False, (backend_free (ModelRes m) s)\<lparr>g_model := None, g_vocab := None\<rparr>)
                     | Some c \<Rightarrow>
                         let s = (backend_alloc (ContextRes c) s)\<lparr>g_ctx := Some c\<rparr>
                         in if env_n_params env > kMaxParams then
                              (False, (backend_free (ModelRes m) (backend_free (ContextRes c) s))
                                 \<lparr>g_ctx := None, g_model := None, g_vocab := None\<rparr>)
                            else if \<not> quantization_accepted (env_desc env) then
                              (False, (backend_free (ModelRes m) (backend_free (ContextRes c) s))
                                 \<lparr>g_ctx := None, g_model := None, g_vocab := None\<rparr>)
                            else
                              let s = (backend_alloc BatchRes s)\<lparr>g_batch := llama_batch_init (g_batch_size s),
                                        g_batch_initialized := True\<rparr>;
                                  s = (backend_alloc (SamplerRes (env_sampler env)) s)
                                        \<lparr>g_sampler := Some (env_sampler env)\<rparr>
                              in (True, s)))"

text \<open>\<open>unloadModel\<close>, lines 304 to 337: the stop signal first, then the pointers are
  cleared, then the copies are freed.\<close>

definition unloadModel :: "globals \<Rightarrow> globals" where
  "unloadModel s =
     (let s = s\<lparr>g_stop_generation_id := g_generation_id s\<rparr>;
          sampler_copy = g_sampler s;
          ctx_copy = g_ctx s;
          model_copy = g_model s;
          s = s\<lparr>g_vocab := None, g_sampler := None, g_ctx := None, g_model := None\<rparr>;
          s = (if g_batch_initialized s then
                 (backend_free BatchRes s)\<lparr>g_batch := llama_batch_free (g_batch s),
                   g_batch_initialized := False\<rparr>
               else s);
          s = (case sampler_copy of Some p \<Rightarrow> backend_free (SamplerRes p) s | None \<Rightarrow> s);
          s = (case ctx_copy of Some c \<Rightarrow> backend_free (ContextRes c) s | None \<Rightarrow> s);
          s = (case model_copy of Some m \<Rightarrow> backend_free (ModelRes m) s | None \<Rightarrow> s)
      in s)"

definition isModelLoaded :: "globals \<Rightarrow> bool" where
  "isModelLoaded s = (g_model s \<noteq> None \<and> g_ctx s \<noteq> None)"

definition stopGeneration :: "globals \<Rightarrow> globals" where
  "stopGeneration s = s\<lparr>g_stop_generation_id := g_generation_id s\<rparr>"

definition getContextSize :: "globals \<Rightarrow> int" where
  "getContextSize s = g_context_size s"

definition isGenerating :: "globals \<Rightarrow> bool" where
  "isGenerating s = g_is_generating s"


section \<open>Generation\<close>

subsection \<open>The backend during a generation\<close>

text \<open>
  The calls \<open>generate\<close> makes into the inference backend, as inputs of the model.
  \<open>llama_tokenize\<close> and \<open>llama_token_to_piece\<close> get the capacity of the output
  buffer and answer with the returned \<open>int\<close> and the data written; \<open>llama_decode\<close>
  and \<open>llama_sampler_sample\<close> depend on the context's hidden state, so their answer
  is indexed by the number of earlier calls of the same generation.
\<close>

type_synonym batch_entry = "llama_token \<times> int \<times> bool"

record backend =
  llama_tokenize :: "string \<Rightarrow> nat \<Rightarrow> bool \<Rightarrow> int \<times> llama_token list"
  llama_decode :: "nat \<Rightarrow> batch_entry list \<Rightarrow> int"
  llama_sampler_sample :: "nat \<Rightarrow> llama_token"
  llama_vocab_is_eog :: "llama_token \<Rightarrow> bool"
  llama_token_to_piece :: "llama_token \<Rightarrow> nat \<Rightarrow> int \<times> string"

text \<open>\<open>std::vector::resize\<close> and \<open>std::string::resize\<close> with a fill value, and a
  callee writing its output at the start of a caller's buffer.\<close>

definition resize_vec :: "nat \<Rightarrow> 'a \<Rightarrow> 'a list \<Rightarrow> 'a list" where
  "resize_vec n x xs = take n xs @ replicate (n - length xs) x"

definition write_buf :: "'a list \<Rightarrow> 'a list \<Rightarrow> 'a list" where
  "write_buf dat buf = take (length buf) dat @ drop (length dat) buf"

text \<open>What \<open>NewStringUTF(str.c_str())\<close> reads of a \<open>std::string\<close>: the bytes before
  its first zero byte.\<close>

definition c_str :: "string \<Rightarrow> string" where
  "c_str str = takeWhile (\<lambda>c. c \<noteq> CHR 0x00) str"

text \<open>
  \<open>tokenize_prompt\<close>, lines 109 to 127. Beside the token vector the model returns
  the capacities of the successive \<open>llama_tokenize\<close> calls, a ghost log.
\<close>

definition tokenize_prompt_log ::
  "backend \<Rightarrow> handle option \<Rightarrow> string \<Rightarrow> bool \<Rightarrow> llama_token list \<times> nat list" where
  "tokenize_prompt_log be vocab text add_special =
     (if vocab = None then ([], [])
      else
        let n_tokens = length text + 32;
            tokens = replicate n_tokens 0;
            (actual, out) = llama_tokenize be text n_tokens add_special;
            tokens = write_buf out tokens;
            calls = [n_tokens];
            (actual, tokens, calls) =
              (if actual < 0 then
                 let tokens = resize_vec (nat (- actual)) 0 tokens;
                     (actual, out) = llama_tokenize be text (length tokens) add_special
                 in (actual, write_buf out tokens, calls @ [length tokens])
               else (actual, tokens, calls))
        in if actual < 0 then ([], calls) else (resize_vec (nat actual) 0 tokens, calls))"

definition tokenize_prompt ::
  "backend \<Rightarrow> handle option \<Rightarrow> string \<Rightarrow> bool \<Rightarrow> llama_token list" where
  "tokenize_prompt be vocab text add_special = fst (tokenize_prompt_log be vocab text add_special)"

text \<open>
  Lines 475 to 481: the conversion of a token into text, with the capacities of the
  successive \<open>llama_token_to_piece\<close> calls as a ghost log. The result is the final
  \<open>n\<close> and \<open>token_str\<close>.
\<close>

definition token_to_str_log :: "backend \<Rightarrow> llama_token \<Rightarrow> int \<times> string \<times> nat list" where
  "token_to_str_log be new_token =
     (let token_str = replicate 128 (CHR 0x00);
          (n, out) = llama_token_to_piece be new_token (length token_str - 1);
          token_str = write_buf out token_str;
          calls = [length token_str - 1]
      in if n < 0 then
           let token_str = resize_vec (nat (- n + 1)) (CHR 0x00) token_str;
               (n, out) = llama_token_to_piece be new_token (length token_str - 1)
           in (n, write_buf out token_str, calls @ [length token_str - 1])
         else (n, token_str, calls))"

text \<open>Lines 482 and 483: \<open>token_str\<close> after the final \<open>resize(n)\<close>, the fragment
  the source appends to the response; \<open>None\<close> when \<open>n\<close> is not positive and the
  token is skipped.\<close>

definition token_fragment :: "backend \<Rightarrow> llama_token \<Rightarrow> string option" where
  "token_fragment be new_token =
     (case token_to_str_log be new_token of
        (n, token_str, calls) \<Rightarrow>
          if n > 0 then Some (resize_vec (nat n) (CHR 0x00) token_str) else None)"

subsection \<open>Batch helpers\<close>

definition batch_clear :: "llama_batch \<Rightarrow> llama_batch" where
  "batch_clear b = b\<lparr>n_tokens := 0\<rparr>"

text \<open>The slot \<open>idx\<close> exists in every array \<open>batch_add\<close> writes.\<close>

definition slot_allocated :: "llama_batch \<Rightarrow> int \<Rightarrow> bool" where
  "slot_allocated b idx =
     (0 \<le> idx \<and> nat idx < length (token b) \<and> nat idx < length (pos b) \<and>
      nat idx < length (n_seq_id b) \<and> nat idx < length (seq_id b) \<and>
      0 < length (seq_id b ! nat idx) \<and> nat idx < length (logits b))"

text \<open>\<open>batch_add\<close>, lines 136 to 144, on \<open>g_batch\<close>. The source writes unchecked; a
  write outside the allocated slots is \<open>None\<close>.\<close>

definition batch_add :: "llama_token \<Rightarrow> int \<Rightarrow> bool \<Rightarrow> llama_batch \<Rightarrow> llama_batch option" where
  "batch_add tok p lg b =
     (let idx = n_tokens b
      in if slot_allocated b idx then
           Some (b\<lparr>token := (token b)[nat idx := tok],
                   pos := (pos b)[nat idx := p],
                   n_seq_id := (n_seq_id b)[nat idx := 1],
                   seq_id := (seq_id b)[nat idx := (seq_id b ! nat idx)[0 := 0]],
                   logits := (logits b)[nat idx := lg],
                   n_tokens := idx + 1\<rparr>)
         else None)"

text \<open>What a decode call reads from the batch: its first \<open>n_tokens\<close> entries.\<close>

definition batch_view :: "llama_batch \<Rightarrow> batch_entry list" where
  "batch_view b = map (\<lambda>i. (token b ! i, pos b ! i, logits b ! i)) [0..<nat (n_tokens b)]"

text \<open>Lines 429 to 434: the inner loop that writes one chunk of the prompt, from loop
  index \<open>i\<close> on. Reading \<open>tokens[pos]\<close> outside the vector is \<open>None\<close> as well.\<close>

function fill_batch ::
  "llama_token list \<Rightarrow> int \<Rightarrow> int \<Rightarrow> int \<Rightarrow> llama_batch \<Rightarrow> llama_batch option" where
  "fill_batch toks n_proc n_batch i b =
     (if i < n_batch then
        (let p = n_proc + i;
             is_last = (p = int (length toks) - 1)
         in if 0 \<le> p \<and> p < int (length toks) then
              (case batch_add (toks ! nat p) p is_last b of
                 None \<Rightarrow> None
               | Some b' \<Rightarrow> fill_batch toks n_proc n_batch (i + 1) b')
            else None)
      else Some b)"
  by pat_completeness auto
termination
  by (relation "measure (\<lambda>(toks, n_proc, n_batch, i, b). nat (n_batch - i))") auto

declare fill_batch.simps [simp del]

subsection \<open>One generate call as a sequence of atomic steps\<close>

text \<open>
  \<open>generate\<close> runs on the caller's thread while other threads may call
  \<open>stopGeneration\<close>, \<open>unloadModel\<close> or \<open>generate\<close>. The call is therefore a small
  machine: a program counter, the call's local variables, and one step function per
  block of the source. Each step makes at most one access to the atomics
  \<open>g_is_generating\<close>, \<open>g_generation_id\<close> and \<open>g_stop_generation_id\<close>. The
  logs of decode submissions, sampled tokens and streamed fragments are ghost fields.
  Of the JNI glue the model keeps what decides a result: the prompt is the
  \<open>std::string\<close> built from the Java string, \<open>callback_ok\<close> says whether the lookup
  of \<open>onToken\<close> succeeds, and a string handed to Java through \<open>NewStringUTF\<close> is
  the \<open>c_str\<close> of the \<open>std::string\<close>. \<open>streamed\<close> lists what the callback
  received, \<open>returned\<close> is what the call returned. The error texts are constants
  without a zero byte and are kept as error values.
\<close>

datatype gen_error =
  ModelNotLoaded | AlreadyGenerating | CallbackUnavailable | TokenizationFailed | PromptEvalFailed

text \<open>The strings the source returns for the errors.\<close>

fun error_text :: "gen_error \<Rightarrow> string" where
  "error_text ModelNotLoaded = ''Error: Model not loaded''"
| "error_text AlreadyGenerating = ''Error: Generation already in progress''"
| "error_text CallbackUnavailable = ''{\"error\":\"Token callback not available\"}''"
| "error_text TokenizationFailed = ''Error: Tokenization failed''"
| "error_text PromptEvalFailed = ''Error: Prompt evaluation failed''"

datatype gen_pc =
  AtLoadedCheck | AtGate | AtMint | AtClearStop | AtSetup | AtPrefill | AtStopCheck |
  AtDecodeLoop | AtExit | Finished | Faulted

record gen_local =
  pc :: gen_pc
  prompt :: string
  maxTokens :: int
  callback_ok :: bool
  local_id :: "64 word"
  tokens :: "llama_token list"
  n_processed :: int
  n_cur :: int
  n_generated :: int
  response :: string
  returned :: "(gen_error + string) option"
  prefill_log :: "batch_entry list list"
  decode_log :: "batch_entry list list"
  sampled :: "llama_token list"
  streamed :: "string list"

text \<open>\<open>n_prompt\<close> is \<open>tokens.size()\<close> wherever the source reads it (lines 405 and 418).\<close>

abbreviation n_prompt :: "gen_local \<Rightarrow> int" where
  "n_prompt l \<equiv> int (length (tokens l))"

definition start_local :: "string \<Rightarrow> int \<Rightarrow> bool \<Rightarrow> gen_local" where
  "start_local p m cb =
     \<lparr>pc = AtLoadedCheck, prompt = p, maxTokens = m, callback_ok = cb, local_id = 0,
      tokens = [], n_processed = 0, n_cur = 0, n_generated = 0, response = [],
      returned = None, prefill_log = [], decode_log = [], sampled = [], streamed = []\<rparr>"

definition finish :: "gen_error + string \<Rightarrow> gen_local \<Rightarrow> gen_local" where
  "finish r l = l\<lparr>pc := Finished, returned := Some r\<rparr>"

text \<open>Lines 366 to 368.\<close>

definition step_loaded_check :: "globals \<times> gen_local \<Rightarrow> globals \<times> gen_local" where
  "step_loaded_check c =
     (case c of (s, l) \<Rightarrow>
        if g_model s = None \<or> g_ctx s = None \<or> g_vocab s = None \<or> \<not> g_batch_initialized s
        then (s, finish (Inl ModelNotLoaded) l)
        else (s, l\<lparr>pc := AtGate\<rparr>))"

text \<open>Lines 370 to 372: \<open>g_is_generating.exchange(true)\<close>.\<close>

definition step_gate :: "globals \<times> gen_local \<Rightarrow> globals \<times> gen_local" where
  "step_gate c =
     (case c of (s, l) \<Rightarrow>
        let was = g_is_generating s;
            s = s\<lparr>g_is_generating := True\<rparr>
        in if was then (s, finish (Inl AlreadyGenerating) l) else (s, l\<lparr>pc := AtMint\<rparr>))"

text \<open>Line 374: \<open>g_generation_id.fetch_add(1) + 1\<close>.\<close>

definition step_mint :: "globals \<times> gen_local \<Rightarrow> globals \<times> gen_local" where
  "step_mint c =
     (case c of (s, l) \<Rightarrow>
        let old = g_generation_id s
        in (s\<lparr>g_generation_id := old + 1\<rparr>, l\<lparr>local_id := old + 1, pc := AtClearStop\<rparr>))"

text \<open>Line 375: \<open>g_stop_generation_id.store(0)\<close>.\<close>

definition step_clear_stop :: "globals \<times> gen_local \<Rightarrow> globals \<times> gen_local" where
  "step_clear_stop c =
     (case c of (s, l) \<Rightarrow> (s\<lparr>g_stop_generation_id := 0\<rparr>, l\<lparr>pc := AtSetup\<rparr>))"

text \<open>Lines 383 and 384.\<close>

definition clamp_max_tokens :: "int \<Rightarrow> int \<Rightarrow> int" where
  "clamp_max_tokens cap m =
     (let m = (if m > cap then cap else m);
          m = (if m < 1 then 1 else m)
      in m)"

text \<open>Lines 415 to 420.\<close>

definition truncate_prompt :: "int \<Rightarrow> int \<Rightarrow> llama_token list \<Rightarrow> llama_token list" where
  "truncate_prompt context_size max_tokens toks =
     (let n = int (length toks);
          max_prompt = max 0 (context_size - max_tokens - 16)
      in if n > max_prompt then drop (nat (n - max_prompt)) toks else toks)"

text \<open>Lines 377 to 423: clamp, callback lookup, tokenization, truncation. Clearing the
  key/value memory has no effect on the modelled state.\<close>

definition step_setup :: "backend \<Rightarrow> globals \<times> gen_local \<Rightarrow> globals \<times> gen_local" where
  "step_setup be c =
     (case c of (s, l) \<Rightarrow>
        let l = l\<lparr>maxTokens := clamp_max_tokens (g_max_gen_tokens s) (maxTokens l)\<rparr>
        in if \<not> callback_ok l then
             (s\<lparr>g_is_generating := False\<rparr>, finish (Inl CallbackUnavailable) l)
           else
             let l = l\<lparr>tokens := tokenize_prompt be (g_vocab s) (prompt l) True\<rparr>
             in if tokens l = [] then
                  (s\<lparr>g_is_generating := False\<rparr>, finish (Inl TokenizationFailed) l)
                else
                  (s, l\<lparr>tokens := truncate_prompt (g_context_size s) (maxTokens l) (tokens l),
                         n_processed := 0, pc := AtPrefill\<rparr>))"

text \<open>Lines 425 to 444: the loop test and one iteration of the prompt evaluation.\<close>

definition step_prefill :: "backend \<Rightarrow> globals \<times> gen_local \<Rightarrow> globals \<times> gen_local" where
  "step_prefill be c =
     (case c of (s, l) \<Rightarrow>
        if n_processed l < n_prompt l \<and> g_stop_generation_id s \<noteq> local_id l then
          let n_batch = min (g_batch_size s) (n_prompt l - n_processed l)
          in (case fill_batch (tokens l) (n_processed l) n_batch 0 (batch_clear (g_batch s)) of
                None \<Rightarrow> (s, l\<lparr>pc := Faulted\<rparr>)
              | Some b \<Rightarrow>
                  let s = s\<lparr>g_batch := b\<rparr>;
                      rc = llama_decode be (length (prefill_log l) + length (decode_log l))
                             (batch_view b);
                      l = l\<lparr>prefill_log := prefill_log l @ [batch_view b]\<rparr>
                  in if rc \<noteq> 0 then
                       (s\<lparr>g_is_generating := False\<rparr>, finish (Inl PromptEvalFailed) l)
                     else (s, l\<lparr>n_processed := n_processed l + n_batch\<rparr>))
        else (s, l\<lparr>pc := AtStopCheck\<rparr>))"

text \<open>Lines 446 to 462.\<close>

definition step_stop_check :: "globals \<times> gen_local \<Rightarrow> globals \<times> gen_local" where
  "step_stop_check c =
     (case c of (s, l) \<Rightarrow>
        if g_stop_generation_id s = local_id l then
          (s\<lparr>g_is_generating := False\<rparr>, finish (Inr []) l)
        else (s, l\<lparr>response := [], n_cur := n_prompt l, n_generated := 0, pc := AtDecodeLoop\<rparr>))"

text \<open>Lines 464 to 503: the loop test and one iteration of the token loop. The
  response grows by the whole fragment (line 484); the callback gets
  \<open>NewStringUTF(token_str.c_str())\<close> (line 487).\<close>

definition step_decode_loop :: "backend \<Rightarrow> globals \<times> gen_local \<Rightarrow> globals \<times> gen_local" where
  "step_decode_loop be c =
     (case c of (s, l) \<Rightarrow>
        if n_generated l < maxTokens l \<and> n_cur l < g_context_size s \<and>
           g_stop_generation_id s \<noteq> local_id l then
          let new_token = llama_sampler_sample be (length (sampled l));
              l = l\<lparr>sampled := sampled l @ [new_token]\<rparr>
          in if llama_vocab_is_eog be new_token then (s, l\<lparr>pc := AtExit\<rparr>)
             else
               let l = (case token_fragment be new_token of
                          Some token_str \<Rightarrow>
                            l\<lparr>response := response l @ token_str,
                              streamed := streamed l @ [c_str token_str]\<rparr>
                        | None \<Rightarrow> l)
               in (case batch_add new_token (n_cur l) True (batch_clear (g_batch s)) of
                     None \<Rightarrow> (s, l\<lparr>pc := Faulted\<rparr>)
                   | Some b \<Rightarrow>
                       let s = s\<lparr>g_batch := b\<rparr>;
                           rc = llama_decode be (length (prefill_log l) + length (decode_log l))
                                  (batch_view b);
                           l = l\<lparr>decode_log := decode_log l @ [batch_view b]\<rparr>
                       in if rc \<noteq> 0 then (s, l\<lparr>pc := AtExit\<rparr>)
                          else (s, l\<lparr>n_cur := n_cur l + 1, n_generated := n_generated l + 1\<rparr>))
        else (s, l\<lparr>pc := AtExit\<rparr>))"

text \<open>Lines 505 to 509: the call returns \<open>NewStringUTF(response.c_str())\<close>.\<close>

definition step_exit :: "globals \<times> gen_local \<Rightarrow> globals \<times> gen_local" where
  "step_exit c =
     (case c of (s, l) \<Rightarrow>
        (s\<lparr>g_is_generating := False\<rparr>, finish (Inr (c_str (response l))) l))"

definition gen_step :: "backend \<Rightarrow> globals \<times> gen_local \<Rightarrow> globals \<times> gen_local" where
  "gen_step be c =
     (case pc (snd c) of
        AtLoadedCheck \<Rightarrow> step_loaded_check c
      | AtGate \<Rightarrow> step_gate c
      | AtMint \<Rightarrow> step_mint c
      | AtClearStop \<Rightarrow> step_clear_stop c
      | AtSetup \<Rightarrow> step_setup be c
      | AtPrefill \<Rightarrow> step_prefill be c
      | AtStopCheck \<Rightarrow> step_stop_check c
      | AtDecodeLoop \<Rightarrow> step_decode_loop be c
      | AtExit \<Rightarrow> step_exit c
      | Finished \<Rightarrow> c
      | Faulted \<Rightarrow> c)"

definition running :: "globals \<times> gen_local \<Rightarrow> bool" where
  "running c = (pc (snd c) \<noteq> Finished \<and> pc (snd c) \<noteq> Faulted)"

text \<open>
  \<open>Java_com_dannyk_xirea_ai_LlamaCpp_generate\<close>, lines 358 to 510, run without
  interference from other threads: the steps are iterated until the call has returned.
  \<open>None\<close> is a call that never returns.
\<close>

definition generate ::
  "backend \<Rightarrow> string \<Rightarrow> int \<Rightarrow> bool \<Rightarrow> globals \<Rightarrow> (globals \<times> gen_local) option" where
  "generate be p m cb s = while_option running (gen_step be) (s, start_local p m cb)"

subsection \<open>Calls from several threads\<close>

text \<open>
  The process as a whole: the shared globals and the local state of every generate
  call made so far. An event starts a generate call, lets one call take its next
  step, or is a complete \<open>stopGeneration\<close>, \<open>unloadModel\<close> or \<open>loadModel\<close> call of
  another thread.
  None of these three reads or writes \<open>g_is_generating\<close>, and
  \<open>stopGeneration\<close> is a load of the generation id followed by a store of the stop
  id, run here without another thread in between.
\<close>

datatype event =
  CallGenerate string int bool
| GenStep nat
| CallStop
| CallUnload
| CallLoad load_env int int int

fun sys_step :: "backend \<Rightarrow> event \<Rightarrow> globals \<times> gen_local list \<Rightarrow> globals \<times> gen_local list" where
  "sys_step be (CallGenerate p m cb) (s, ts) = (s, ts @ [start_local p m cb])"
| "sys_step be (GenStep i) (s, ts) =
     (if i < length ts then
        (case gen_step be (s, ts ! i) of (s', l') \<Rightarrow> (s', ts[i := l']))
      else (s, ts))"
| "sys_step be CallStop (s, ts) = (stopGeneration s, ts)"
| "sys_step be CallUnload (s, ts) = (unloadModel s, ts)"
| "sys_step be (CallLoad env nCtx nThreads nGpuLayers) (s, ts) =
     (snd (loadModel env nCtx nThreads nGpuLayers s), ts)"

definition run_events ::
  "backend \<Rightarrow> event list \<Rightarrow> globals \<times> gen_local list \<Rightarrow> globals \<times> gen_local list" where
  "run_events be evs c = fold (sys_step be) evs c"

text \<open>A call holds the generating flag from its successful exchange until the step
  that stores \<open>false\<close>.\<close>

definition holds_flag :: "gen_local \<Rightarrow> bool" where
  "holds_flag l =
     (pc l = AtMint \<or> pc l = AtClearStop \<or> pc l = AtSetup \<or> pc l = AtPrefill \<or>
      pc l = AtStopCheck \<or> pc l = AtDecodeLoop \<or> pc l = AtExit \<or> pc l = Faulted)"


section \<open>Predicates used in the statements\<close>

text \<open>The test of line 366, negated: the session is usable by \<open>generate\<close>.\<close>

definition session_ready :: "globals \<Rightarrow> bool" where
  "session_ready s =
     (\<not> (g_model s = None \<or> g_ctx s = None \<or> g_vocab s = None \<or> \<not> g_batch_initialized s))"

text \<open>The number of calls holding the flag agrees with the flag.\<close>

definition flag_inv :: "globals \<times> gen_local list \<Rightarrow> bool" where
  "flag_inv c =
     (case c of (s, ts) \<Rightarrow>
        length (filter holds_flag ts) = (if g_is_generating s then 1 else 0))"

text \<open>A batch with \<open>n\<close> slots in every array, as \<open>llama_batch_init\<close> builds it.\<close>

definition batch_wf :: "nat \<Rightarrow> llama_batch \<Rightarrow> bool" where
  "batch_wf n b =
     (length (token b) = n \<and> length (pos b) = n \<and> length (n_seq_id b) = n \<and>
      length (seq_id b) = n \<and> length (logits b) = n \<and> [] \<notin> set (seq_id b))"

text \<open>
  The prompt as the specification wants it submitted: token \<open>k\<close> at position \<open>k\<close>,
  asking for logits at the last position only.
\<close>

definition entry_at :: "llama_token list \<Rightarrow> nat \<Rightarrow> batch_entry" where
  "entry_at toks k = (toks ! k, int k, int k = int (length toks) - 1)"

definition prompt_entries :: "llama_token list \<Rightarrow> batch_entry list" where
  "prompt_entries toks = map (entry_at toks) [0..<length toks]"

text \<open>\<open>ys\<close> is exactly the trailing \<open>k\<close> elements of \<open>xs\<close>.\<close>

definition is_trailing :: "int \<Rightarrow> 'a list \<Rightarrow> 'a list \<Rightarrow> bool" where
  "is_trailing k xs ys =
     (0 \<le> k \<and> k \<le> int (length xs) \<and> ys = drop (length xs - nat k) xs)"

text \<open>The tier table and the thread cap in the words of section 4.2 of the
  specification: context size, batch size and maximum generated tokens by total
  memory in MB.\<close>

definition spec_tier_table :: "int \<Rightarrow> int \<times> int \<times> int" where
  "spec_tier_table mb =
     (if mb \<le> 3072 then (512, 128, 256)
      else if mb \<le> 4096 then (1024, 256, 384)
      else if mb \<le> 6144 then (1536, 256, 512)
      else if mb \<le> 8192 then (2048, 256, 512)
      else (2048, 256, 768))"

definition spec_thread_cap :: "int \<Rightarrow> int" where
  "spec_thread_cap mb = (if mb \<le> 3072 then 4 else 8)"

text \<open>
  The device profile and the resource plan of section 3 of the specification. The
  profile is what the code reads of the device: the total memory as
  \<open>getTotalMemoryMB\<close> returns it and the core count as \<open>getThreadCount\<close> reads it.
  \<open>spec_plan\<close> is the policy of section 4.2 in the specification's words.
\<close>

record DeviceProfile =
  total_memory_mb :: int
  logical_cores :: int

record ResourcePlan =
  context_size :: int
  batch_size :: int
  thread_count :: int
  max_generated_tokens :: int

definition profile :: "device \<Rightarrow> DeviceProfile" where
  "profile d = \<lparr>total_memory_mb = getTotalMemoryMB d, logical_cores = cpu_cores d\<rparr>"

definition spec_plan :: "DeviceProfile \<Rightarrow> ResourcePlan" where
  "spec_plan pr =
     (case spec_tier_table (total_memory_mb pr) of
        (ctx, batch, max_tokens) \<Rightarrow>
          \<lparr>context_size = ctx, batch_size = batch,
           thread_count = min (logical_cores pr) (spec_thread_cap (total_memory_mb pr)),
           max_generated_tokens = max_tokens\<rparr>)"

text \<open>The plan the globals hold.\<close>

definition current_plan :: "globals \<Rightarrow> ResourcePlan" where
  "current_plan s =
     \<lparr>context_size = g_context_size s, batch_size = g_batch_size s,
      thread_count = g_n_threads s, max_generated_tokens = g_max_gen_tokens s\<rparr>"



subsection \<open>Invariants of a generate call\<close>

text \<open>Relative to the state \<open>s0\<close> the call started in: the configuration is not
  changed, the batch keeps its slots, no access has left its array, and the prompt
  loop's counter stays inside the prompt.\<close>

definition inv_base :: "globals \<Rightarrow> globals \<times> gen_local \<Rightarrow> bool" where
  "inv_base s0 c =
     (case c of (s, l) \<Rightarrow>
        g_batch_size s = g_batch_size s0 \<and> g_max_gen_tokens s = g_max_gen_tokens s0 \<and>
        g_context_size s = g_context_size s0 \<and>
        batch_wf (nat (g_batch_size s0)) (g_batch s) \<and>
        pc l \<noteq> Faulted \<and>
        (pc l = Finished \<longrightarrow> returned l \<noteq> None) \<and>
        (pc l = AtPrefill \<longrightarrow> 0 \<le> n_processed l \<and> n_processed l \<le> n_prompt l))"


definition inv_prefill :: "int \<Rightarrow> globals \<times> gen_local \<Rightarrow> bool" where
  "inv_prefill B c =
     (case c of (s, l) \<Rightarrow>
        (\<forall>ch \<in> set (prefill_log l). ch \<noteq> [] \<and> int (length ch) \<le> B) \<and>
        (pc l = AtLoadedCheck \<or> pc l = AtGate \<or> pc l = AtMint \<or> pc l = AtClearStop \<or>
         pc l = AtSetup \<longrightarrow> prefill_log l = []) \<and>
        (\<exists>k. k \<le> length (tokens l) \<and>
           concat (prefill_log l) = take k (prompt_entries (tokens l)) \<and>
           (pc l = AtPrefill \<longrightarrow> int k = n_processed l) \<and>
           (pc l = AtStopCheck \<longrightarrow>
              k = length (tokens l) \<or> g_stop_generation_id s = local_id l) \<and>
           (pc l = AtDecodeLoop \<or> pc l = AtExit \<longrightarrow> k = length (tokens l)) \<and>
           (pc l = Finished \<longrightarrow>
              (\<forall>r. returned l = Some (Inr r) \<longrightarrow>
                 k = length (tokens l) \<or> g_stop_generation_id s = local_id l))))"

text \<open>Every batch the token loop submits holds one entry, which asks for logits.\<close>

definition inv_decode :: "globals \<times> gen_local \<Rightarrow> bool" where
  "inv_decode c =
     (case c of (s, l) \<Rightarrow> \<forall>ch \<in> set (decode_log l). \<exists>t q. ch = [(t, q, True)])"


text \<open>The measure of progress of a call: the program counter's rank, then the
  distance of the active loop from its bound.\<close>

fun pc_rank :: "gen_pc \<Rightarrow> nat" where
  "pc_rank AtLoadedCheck = 9"
| "pc_rank AtGate = 8"
| "pc_rank AtMint = 7"
| "pc_rank AtClearStop = 6"
| "pc_rank AtSetup = 5"
| "pc_rank AtPrefill = 4"
| "pc_rank AtStopCheck = 3"
| "pc_rank AtDecodeLoop = 2"
| "pc_rank AtExit = 1"
| "pc_rank Finished = 0"
| "pc_rank Faulted = 0"

definition loop_variant :: "globals \<times> gen_local \<Rightarrow> nat" where
  "loop_variant c =
     (case c of (s, l) \<Rightarrow>
        if pc l = AtPrefill then nat (n_prompt l - n_processed l)
        else if pc l = AtDecodeLoop then nat (maxTokens l - n_generated l)
        else 0)"

subsection \<open>Concrete inputs\<close>

text \<open>A low-end device (2 GB, 8 cores) with a 1B-parameter Q4 model, the same model
  described as F16, a device that reports no core count, and a backend whose prompt
  has two tokens and whose every sampled token is the text \<open>i\<close>.\<close>

definition demo_env :: load_env where
  "demo_env =
     \<lparr>env_device = \<lparr>dev_sysinfo = Some (2048, 1048576), dev_hardware_concurrency = 8\<rparr>,
      env_model = Some 1, env_vocab = Some 1, env_n_ctx_train = 4096, env_ctx = Some 2,
      env_n_params = 1000000000, env_desc = ''llama 1B Q4_K - Medium'', env_sampler = 3\<rparr>"

definition demo_env_f16 :: load_env where
  "demo_env_f16 = demo_env\<lparr>env_desc := ''llama 1B F16''\<rparr>"

definition demo_device_unknown_cores :: device where
  "demo_device_unknown_cores = \<lparr>dev_sysinfo = None, dev_hardware_concurrency = 0\<rparr>"

text \<open>A device whose memory size in bytes, \<open>2 ^ 52 * 4096\<close>, does not fit 64 bits.\<close>

definition demo_device_wrapping :: device where
  "demo_device_wrapping =
     \<lparr>dev_sysinfo = Some (4503599627370496, 4096), dev_hardware_concurrency = 6\<rparr>"

definition demo_backend :: backend where
  "demo_backend =
     \<lparr>llama_tokenize = (\<lambda>text cap add_special. (2, [1, 72])),
      llama_decode = (\<lambda>k b. 0),
      llama_sampler_sample = (\<lambda>k. 105),
      llama_vocab_is_eog = (\<lambda>t. t = 2),
      llama_token_to_piece = (\<lambda>t cap. (1, ''i''))\<rparr>"

text \<open>The state after \<open>loadModel\<close> of \<open>demo_env\<close> with a requested context of 512.\<close>

definition demo_loaded :: globals where
  "demo_loaded =
     \<lparr>g_model = Some 1, g_ctx = Some 2, g_sampler = Some 3, g_vocab = Some 1,
      g_is_generating = False, g_generation_id = 0, g_stop_generation_id = 0,
      g_batch = llama_batch_init 128, g_batch_initialized = True,
      g_batch_size = 128, g_context_size = 512, g_n_threads = 4, g_max_gen_tokens = 256,
      backend_live = {ModelRes 1, ContextRes 2, BatchRes, SamplerRes 3}\<rparr>"

text \<open>The same session loaded with a requested context of 20.\<close>

definition demo_small_context :: globals where
  "demo_small_context = demo_loaded\<lparr>g_context_size := 20\<rparr>"

text \<open>A session whose batch has two slots, and a backend whose prompt has five
  tokens: the prompt needs three chunks.\<close>

definition demo_two_slots :: globals where
  "demo_two_slots = demo_loaded\<lparr>g_batch := llama_batch_init 2, g_batch_size := 2\<rparr>"

definition five_token_backend :: backend where
  "five_token_backend =
     demo_backend\<lparr>llama_tokenize := (\<lambda>text cap add_special. (5, [11, 12, 13, 14, 15]))\<rparr>"






section \<open>Device configuration: the tier table\<close>

lemmas config_constants = kLowEndContext_def kMidContext_def kMidHighContext_def
  kHighContext_def kLowEndBatch_def kHighBatch_def kLowEndMaxThreads_def kMaxThreads_def
  kLowEndMaxGenTokens_def kMidMaxGenTokens_def kHighMaxGenTokens_def kMaxParams_def

lemma applyDeviceConfig_handles:
  "g_model (applyDeviceConfig d s) = g_model s"
  "g_ctx (applyDeviceConfig d s) = g_ctx s"
  "g_sampler (applyDeviceConfig d s) = g_sampler s"
  "g_vocab (applyDeviceConfig d s) = g_vocab s"
  "g_batch_initialized (applyDeviceConfig d s) = g_batch_initialized s"
  "backend_live (applyDeviceConfig d s) = backend_live s"
  "g_is_generating (applyDeviceConfig d s) = g_is_generating s"
  by (simp_all add: applyDeviceConfig_def Let_def)

lemma applyDeviceConfig_positive:
  "128 \<le> g_batch_size (applyDeviceConfig d s) \<and> 256 \<le> g_max_gen_tokens (applyDeviceConfig d s)"
  by (simp add: applyDeviceConfig_def config_constants Let_def)

lemma cpu_cores_eq:
  "cpu_cores d = (if dev_hardware_concurrency d \<le> 0 then 1 else dev_hardware_concurrency d)"
  by (simp add: cpu_cores_def Let_def)

text \<open>The total memory is never negative and below \<open>2 ^ 44\<close> MB, whatever
  \<open>sysinfo\<close> answers.\<close>

lemma getTotalMemoryMB_range: "0 \<le> getTotalMemoryMB d \<and> getTotalMemoryMB d < 2 ^ 44"
proof (cases "dev_sysinfo d")
  case None
  then show ?thesis
    by (simp add: getTotalMemoryMB_def)
next
  case (Some a)
  obtain totalram mem_unit where a: "a = (totalram, mem_unit)"
    by (cases a)
  let ?p = "totalram * ucast mem_unit :: 64 word"
  let ?q = "?p div (1024 * 1024)"
  have d: "uint ?q = uint ?p div 1048576"
    by (simp add: uint_div)
  have lt: "uint ?p < 18446744073709551616"
    using uint_lt2p[of ?p] by simp
  have ge: "0 \<le> uint ?p"
    by simp
  have u1: "0 \<le> uint ?q"
    by simp
  have u2: "uint ?q < 17592186044416"
    unfolding d using lt ge by linarith
  have lo: "- (2 ^ 63) \<le> uint ?q"
    by (rule order_trans[of _ 0]) simp_all
  have hi: "uint ?q < 2 ^ 63"
    by (rule less_trans[OF u2]) simp
  have "signed_take_bit 63 (uint ?q) = uint ?q"
    using lo hi by (rule signed_take_bit_int_eq_self)
  then have "sint ?q = uint ?q"
    by (simp add: sint_uint)
  with u1 u2 Some a show ?thesis
    by (simp add: getTotalMemoryMB_def)
qed

text \<open>The product of line 62 wraps: a size of \<open>2 ^ 52 * 4096\<close> bytes is read as 0 MB
  and gets the lowest tier.\<close>

lemma getTotalMemoryMB_wraps:
  "getTotalMemoryMB demo_device_wrapping = 0 \<and>
   g_context_size (applyDeviceConfig demo_device_wrapping initial_globals) = 512"
  by (simp add: getTotalMemoryMB_def demo_device_wrapping_def applyDeviceConfig_def
      config_constants Let_def)

text \<open>A reported core count of zero is read as one core.\<close>

lemma cpu_cores_unknown:
  "cpu_cores demo_device_unknown_cores = 1 \<and>
   g_n_threads (applyDeviceConfig demo_device_unknown_cores initial_globals) = 1"
  by (simp add: applyDeviceConfig_def getThreadCount_def getTotalMemoryMB_def cpu_cores_def
      demo_device_unknown_cores_def config_constants Let_def)

text \<open>
  Claim C4. For every device, with the profile the code reads of it (the total memory
  in MB returned by \<open>getTotalMemoryMB\<close>, the core count read by \<open>getThreadCount\<close>,
  which is 1 when the platform reports no cores), the plan \<open>applyDeviceConfig\<close>
  writes is the plan of the specification: context size, batch size and maximum
  generated tokens are the entry of the tier table for the total memory, and the
  thread count is the minimum of the core count and the tier's cap, 4 at or below
  3072 MB and 8 above. The plan is a function of the profile alone, whatever the
  state before.
\<close>

theorem applyDeviceConfig_tier_table:
  "current_plan (applyDeviceConfig d s) = spec_plan (profile d) \<and>
   (g_context_size (applyDeviceConfig d s), g_batch_size (applyDeviceConfig d s),
    g_max_gen_tokens (applyDeviceConfig d s)) = spec_tier_table (getTotalMemoryMB d) \<and>
   g_n_threads (applyDeviceConfig d s) =
     min (cpu_cores d) (if getTotalMemoryMB d \<le> 3072 then 4 else 8) \<and>
   g_n_threads (applyDeviceConfig d s) =
     min (if dev_hardware_concurrency d \<le> 0 then 1 else dev_hardware_concurrency d)
         (spec_thread_cap (getTotalMemoryMB d))"
  by (simp add: applyDeviceConfig_def getThreadCount_def spec_tier_table_def
      spec_thread_cap_def config_constants Let_def current_plan_def spec_plan_def
      profile_def cpu_cores_eq)

section \<open>Loading and unloading\<close>

lemma starts_with_iff: "starts_with s p \<longleftrightarrow> (\<exists>r. s = p @ r)"
  by (induction s p rule: starts_with.induct) auto

lemma str_find_None_iff: "str_find s p = None \<longleftrightarrow> \<not> (\<exists>a b. s = a @ p @ b)"
proof (induction s)
  case Nil
  then show ?case by auto
next
  case (Cons c cs)
  show ?case
  proof (cases "starts_with (c # cs) p")
    case True
    then obtain r where "c # cs = p @ r"
      by (auto simp: starts_with_iff)
    then have "c # cs = [] @ p @ r"
      by simp
    with True show ?thesis
      by (metis str_find.simps(2) option.distinct(1))
  next
    case False
    have "(\<exists>a b. c # cs = a @ p @ b) \<longleftrightarrow> (\<exists>a b. cs = a @ p @ b)"
    proof
      assume "\<exists>a b. c # cs = a @ p @ b"
      then obtain a b where ab: "c # cs = a @ p @ b"
        by blast
      show "\<exists>a b. cs = a @ p @ b"
      proof (cases a)
        case Nil
        with ab False show ?thesis
          by (auto simp: starts_with_iff)
      next
        case (Cons x a')
        with ab show ?thesis
          by auto
      qed
    next
      assume "\<exists>a b. cs = a @ p @ b"
      then obtain a b where "cs = a @ p @ b"
        by blast
      then have "c # cs = (c # a) @ p @ b"
        by simp
      then show "\<exists>a b. c # cs = a @ p @ b"
        by blast
    qed
    with False Cons show ?thesis
      by simp
  qed
qed

text \<open>The quantization gate accepts exactly the descriptions whose lower-cased first
  255 characters contain one of the three markers.\<close>

lemma quantization_accepted_iff:
  "quantization_accepted d \<longleftrightarrow>
     (\<exists>m a b. (m = ''q4'' \<or> m = ''q5'' \<or> m = ''quantized'') \<and>
        map tolower_char (take 255 d) = a @ m @ b)"
  unfolding quantization_accepted_def Let_def str_find_None_iff by blast

lemma release_existing_clears:
  "g_model (release_existing s) = None \<and> g_ctx (release_existing s) = None \<and>
   g_sampler (release_existing s) = None \<and> g_vocab (release_existing s) = None \<and>
   \<not> g_batch_initialized (release_existing s)"
  by (simp add: release_existing_def backend_free_def Let_def split: option.splits)

lemma release_existing_live: "backend_live (release_existing s) = backend_live s - owned s"
  by (auto simp add: release_existing_def backend_free_def owned_def Let_def
      split: option.splits)

lemma release_existing_flag: "g_is_generating (release_existing s) = g_is_generating s"
  by (simp add: release_existing_def backend_free_def Let_def split: option.splits)

lemma loadModel_succeeds_iff:
  "fst (loadModel env nCtx nThreads nGpuLayers s0) \<longleftrightarrow>
     (env_model env \<noteq> None \<and> env_vocab env \<noteq> None \<and> env_ctx env \<noteq> None \<and>
      env_n_params env \<le> kMaxParams \<and> quantization_accepted (env_desc env))"
  by (auto simp add: loadModel_def Let_def split: option.splits)

lemma loadModel_failure:
  assumes "backend_live s0 = owned s0" "\<not> fst (loadModel env nCtx nThreads nGpuLayers s0)"
  shows "g_model (snd (loadModel env nCtx nThreads nGpuLayers s0)) = None \<and>
         g_vocab (snd (loadModel env nCtx nThreads nGpuLayers s0)) = None \<and>
         g_ctx (snd (loadModel env nCtx nThreads nGpuLayers s0)) = None \<and>
         g_sampler (snd (loadModel env nCtx nThreads nGpuLayers s0)) = None \<and>
         \<not> g_batch_initialized (snd (loadModel env nCtx nThreads nGpuLayers s0)) \<and>
         backend_live (snd (loadModel env nCtx nThreads nGpuLayers s0)) = {}"
  using assms
  by (auto simp add: loadModel_def Let_def release_existing_clears release_existing_live
      applyDeviceConfig_handles backend_alloc_def backend_free_def
      split: option.splits if_splits)

lemma loadModel_success:
  assumes "backend_live s0 = owned s0" "fst (loadModel env nCtx nThreads nGpuLayers s0)"
  shows "g_model (snd (loadModel env nCtx nThreads nGpuLayers s0)) \<noteq> None \<and>
         g_vocab (snd (loadModel env nCtx nThreads nGpuLayers s0)) \<noteq> None \<and>
         g_ctx (snd (loadModel env nCtx nThreads nGpuLayers s0)) \<noteq> None \<and>
         g_sampler (snd (loadModel env nCtx nThreads nGpuLayers s0)) \<noteq> None \<and>
         g_batch_initialized (snd (loadModel env nCtx nThreads nGpuLayers s0)) \<and>
         backend_live (snd (loadModel env nCtx nThreads nGpuLayers s0)) =
           owned (snd (loadModel env nCtx nThreads nGpuLayers s0))"
  using assms
  by (auto simp add: loadModel_def Let_def release_existing_clears release_existing_live
      applyDeviceConfig_handles backend_alloc_def backend_free_def owned_def
      split: option.splits if_splits)

lemma loadModel_keeps_accounting:
  "backend_live s0 = owned s0 \<Longrightarrow>
     backend_live (snd (loadModel env nCtx nThreads nGpuLayers s0)) =
       owned (snd (loadModel env nCtx nThreads nGpuLayers s0))"
  using loadModel_success[of s0 env nCtx nThreads nGpuLayers]
    loadModel_failure[of s0 env nCtx nThreads nGpuLayers]
  by (cases "fst (loadModel env nCtx nThreads nGpuLayers s0)") (auto simp: owned_def)

lemma loadModel_flag:
  "g_is_generating (snd (loadModel env nCtx nThreads nGpuLayers s)) = g_is_generating s"
  by (simp add: loadModel_def backend_free_def backend_alloc_def Let_def
      release_existing_flag applyDeviceConfig_handles split: option.splits)

lemma loadModel_context_size:
  "fst (loadModel env nCtx nThreads nGpuLayers s0) \<Longrightarrow>
     g_context_size (snd (loadModel env nCtx nThreads nGpuLayers s0)) =
       min nCtx (min (fst (spec_tier_table (getTotalMemoryMB (env_device env))))
                     (env_n_ctx_train env))"
  by (auto simp add: loadModel_def Let_def applyDeviceConfig_def spec_tier_table_def
      config_constants backend_alloc_def backend_free_def split: option.splits if_splits)

lemmas load_eval = loadModel_def release_existing_def applyDeviceConfig_def
  getTotalMemoryMB_def getThreadCount_def cpu_cores_def backend_alloc_def backend_free_def
  llama_batch_init_def llama_batch_free_def quantization_accepted_def tolower_char_def
  char_of_def bit_Suc_0_iff Let_def initial_globals_def owned_def isModelLoaded_def

lemma demo_load: "loadModel demo_env 512 4 0 initial_globals = (True, demo_loaded)"
  by (simp add: demo_env_def load_eval config_constants demo_loaded_def insert_commute)

lemma demo_load_small: "loadModel demo_env 20 4 0 initial_globals = (True, demo_small_context)"
  by (simp add: demo_env_def load_eval config_constants demo_loaded_def demo_small_context_def
      insert_commute)

lemma demo_load_f16: "\<not> fst (loadModel demo_env_f16 512 4 0 initial_globals)"
  by (simp add: demo_env_f16_def demo_env_def load_eval config_constants)

text \<open>
  Claim C3. Starting from a state whose live backend resources are the ones the
  session variables own, \<open>loadModel\<close> succeeds exactly when the backend loads the
  model, the vocabulary and the context exist, the parameter count is at most
  7 000 000 000 and the description passes the quantization gate. On success model,
  vocabulary, context, sampler and batch are all present, \<open>isModelLoaded\<close> is true and
  the live resources are the owned ones; on failure all five are absent,
  \<open>isModelLoaded\<close> is false and no backend resource is left allocated.
\<close>

theorem loadModel_all_or_nothing:
  assumes "backend_live s0 = owned s0"
  shows "(fst (loadModel env nCtx nThreads nGpuLayers s0) \<longleftrightarrow>
            (env_model env \<noteq> None \<and> env_vocab env \<noteq> None \<and> env_ctx env \<noteq> None \<and>
             env_n_params env \<le> kMaxParams \<and> quantization_accepted (env_desc env))) \<and>
         (if fst (loadModel env nCtx nThreads nGpuLayers s0) then
            g_model (snd (loadModel env nCtx nThreads nGpuLayers s0)) \<noteq> None \<and>
            g_vocab (snd (loadModel env nCtx nThreads nGpuLayers s0)) \<noteq> None \<and>
            g_ctx (snd (loadModel env nCtx nThreads nGpuLayers s0)) \<noteq> None \<and>
            g_sampler (snd (loadModel env nCtx nThreads nGpuLayers s0)) \<noteq> None \<and>
            g_batch_initialized (snd (loadModel env nCtx nThreads nGpuLayers s0)) \<and>
            isModelLoaded (snd (loadModel env nCtx nThreads nGpuLayers s0)) \<and>
            backend_live (snd (loadModel env nCtx nThreads nGpuLayers s0)) =
              owned (snd (loadModel env nCtx nThreads nGpuLayers s0))
          else
            g_model (snd (loadModel env nCtx nThreads nGpuLayers s0)) = None \<and>
            g_vocab (snd (loadModel env nCtx nThreads nGpuLayers s0)) = None \<and>
            g_ctx (snd (loadModel env nCtx nThreads nGpuLayers s0)) = None \<and>
            g_sampler (snd (loadModel env nCtx nThreads nGpuLayers s0)) = None \<and>
            \<not> g_batch_initialized (snd (loadModel env nCtx nThreads nGpuLayers s0)) \<and>
            \<not> isModelLoaded (snd (loadModel env nCtx nThreads nGpuLayers s0)) \<and>
            backend_live (snd (loadModel env nCtx nThreads nGpuLayers s0)) = {})"
proof (cases "fst (loadModel env nCtx nThreads nGpuLayers s0)")
  case True
  with loadModel_success[OF assms True] loadModel_succeeds_iff[of env nCtx nThreads nGpuLayers s0]
  show ?thesis
    by (simp add: isModelLoaded_def)
next
  case False
  with loadModel_failure[OF assms False] loadModel_succeeds_iff[of env nCtx nThreads nGpuLayers s0]
  show ?thesis
    by (simp add: isModelLoaded_def)
qed

text \<open>Witness: from the initial state the Q4 model loads and is reported loaded, the
  same model described as F16 is refused and leaves nothing allocated.\<close>

theorem loadModel_all_or_nothing_witness:
  "backend_live initial_globals = owned initial_globals \<and>
   fst (loadModel demo_env 512 4 0 initial_globals) \<and>
   isModelLoaded (snd (loadModel demo_env 512 4 0 initial_globals)) \<and>
   \<not> fst (loadModel demo_env_f16 512 4 0 initial_globals) \<and>
   \<not> isModelLoaded (snd (loadModel demo_env_f16 512 4 0 initial_globals)) \<and>
   backend_live (snd (loadModel demo_env_f16 512 4 0 initial_globals)) = {}"
proof -
  have h: "backend_live initial_globals = owned initial_globals"
    by (simp add: initial_globals_def owned_def)
  show ?thesis
    using h loadModel_all_or_nothing[OF h, of demo_env 512 4 0]
      loadModel_all_or_nothing[OF h, of demo_env_f16 512 4 0] demo_load demo_load_f16
    by simp
qed

lemma unloadModel_flag: "g_is_generating (unloadModel s) = g_is_generating s"
  by (simp add: unloadModel_def backend_free_def Let_def split: option.splits)

lemma unloadModel_live:
  "backend_live s = owned s \<Longrightarrow> backend_live (unloadModel s) = {}"
  by (auto simp add: unloadModel_def backend_free_def owned_def Let_def split: option.splits)

lemma unloadModel_keeps_accounting:
  "backend_live s = owned s \<Longrightarrow> backend_live (unloadModel s) = owned (unloadModel s)"
  by (auto simp add: unloadModel_def backend_free_def owned_def Let_def split: option.splits)

text \<open>
  Claim C10. \<open>unloadModel\<close> clears the model, context, vocabulary and sampler
  pointers and the batch flag, and leaves the context size, batch size, thread count
  and maximum generated tokens as they were; so \<open>getContextSize\<close> after an unload is
  what it was before, and after unloading a successfully loaded session it is still
  that session's capped context size, the minimum of the requested size, the device
  tier's size and the model's trained size.
\<close>

theorem unloadModel_keeps_configuration:
  "g_model (unloadModel s) = None \<and> g_ctx (unloadModel s) = None \<and>
   g_vocab (unloadModel s) = None \<and> g_sampler (unloadModel s) = None \<and>
   \<not> g_batch_initialized (unloadModel s) \<and>
   g_context_size (unloadModel s) = g_context_size s \<and>
   g_batch_size (unloadModel s) = g_batch_size s \<and>
   g_n_threads (unloadModel s) = g_n_threads s \<and>
   g_max_gen_tokens (unloadModel s) = g_max_gen_tokens s \<and>
   getContextSize (unloadModel s) = getContextSize s \<and>
   (fst (loadModel env nCtx nThreads nGpuLayers s0) \<longrightarrow>
      getContextSize (unloadModel (snd (loadModel env nCtx nThreads nGpuLayers s0))) =
        min nCtx (min (fst (spec_tier_table (getTotalMemoryMB (env_device env))))
                      (env_n_ctx_train env)))"
proof -
  have frame: "g_context_size (unloadModel x) = g_context_size x" for x
    by (simp add: unloadModel_def backend_free_def Let_def split: option.splits)
  show ?thesis
    using loadModel_context_size[of env nCtx nThreads nGpuLayers s0]
    by (simp add: frame getContextSize_def)
       (simp add: unloadModel_def backend_free_def Let_def split: option.splits)
qed

text \<open>Witness: the low-end device's tier gives 512, the request is 512 and the model
  was trained on 4096, so the context size is 512 before and after the unload.\<close>

theorem unloadModel_keeps_configuration_witness:
  "fst (loadModel demo_env 512 4 0 initial_globals) \<and>
   getContextSize (unloadModel (snd (loadModel demo_env 512 4 0 initial_globals))) = 512 \<and>
   g_model (unloadModel (snd (loadModel demo_env 512 4 0 initial_globals))) = None \<and>
   g_batch_size (unloadModel (snd (loadModel demo_env 512 4 0 initial_globals))) = 128"
  using unloadModel_keeps_configuration[of "snd (loadModel demo_env 512 4 0 initial_globals)"
      demo_env 512 4 0 initial_globals] demo_load
  by (simp add: demo_loaded_def demo_env_def spec_tier_table_def getTotalMemoryMB_def)


section \<open>Properties of the batch helpers\<close>


lemma batch_wf_init: "batch_wf (nat n) (llama_batch_init n)"
  by (simp add: batch_wf_def llama_batch_init_def)

lemma batch_wf_clear: "batch_wf n (batch_clear b) = batch_wf n b"
  by (simp add: batch_wf_def batch_clear_def)

lemma batch_view_clear: "batch_view (batch_clear b) = []"
  by (simp add: batch_view_def batch_clear_def)

lemma n_tokens_clear: "n_tokens (batch_clear b) = 0"
  by (simp add: batch_clear_def)

lemma not_in_subset_insert: "A \<subseteq> insert r S \<Longrightarrow> r \<noteq> x \<Longrightarrow> x \<notin> S \<Longrightarrow> x \<notin> A"
  by auto

lemma batch_add_ok:
  assumes "batch_wf n b" "0 \<le> n_tokens b" "nat (n_tokens b) < n"
  shows "\<exists>b'. batch_add t p lg b = Some b' \<and> batch_wf n b' \<and> n_tokens b' = n_tokens b + 1 \<and>
           batch_view b' = batch_view b @ [(t, p, lg)]"
proof -
  let ?k = "nat (n_tokens b)"
  have "?k < length (seq_id b)"
    using assms by (simp add: batch_wf_def)
  then have "seq_id b ! ?k \<in> set (seq_id b)"
    by (rule nth_mem)
  then have row: "seq_id b ! ?k \<noteq> []"
    using assms(1) by (auto simp: batch_wf_def)
  have alloc: "slot_allocated b (n_tokens b)"
    using assms row by (auto simp: slot_allocated_def batch_wf_def)
  have nat_suc: "nat (n_tokens b + 1) = Suc ?k" using assms(2) by simp
  have "set ((seq_id b)[?k := (seq_id b ! ?k)[0 := 0]]) \<subseteq> insert ((seq_id b ! ?k)[0 := 0]) (set (seq_id b))"
    by (rule set_update_subset_insert)
  moreover have "(seq_id b ! ?k)[0 := 0] \<noteq> []"
    using row by simp
  moreover have "[] \<notin> set (seq_id b)"
    using assms(1) by (simp add: batch_wf_def)
  ultimately have ne: "[] \<notin> set ((seq_id b)[?k := (seq_id b ! ?k)[0 := 0]])"
    by (rule not_in_subset_insert)
  show ?thesis
    using alloc assms ne
    by (simp add: batch_add_def Let_def batch_wf_def batch_view_def nat_suc nth_list_update)
qed

lemma fill_batch_ok:
  assumes "batch_wf n b" "0 \<le> i" "n_tokens b = i" "n_batch \<le> int n" "0 \<le> n_proc"
    "n_proc + n_batch \<le> int (length toks)" "i \<le> n_batch"
  shows "\<exists>b'. fill_batch toks n_proc n_batch i b = Some b' \<and> batch_wf n b' \<and>
           batch_view b' = batch_view b @ map (entry_at toks) [nat (n_proc + i)..<nat (n_proc + n_batch)]"
  using assms
proof (induction toks n_proc n_batch i b rule: fill_batch.induct)
  case (1 toks n_proc n_batch i b)
  show ?case
  proof (cases "i < n_batch")
    case False
    with "1.prems" show ?thesis by (simp add: fill_batch.simps)
  next
    case True
    let ?p = "n_proc + i"
    have inr: "0 \<le> ?p" "?p < int (length toks)" using True "1.prems" by auto
    have "nat (n_tokens b) < n" using True "1.prems" by auto
    from batch_add_ok[OF "1.prems"(1) _ this, of "toks ! nat ?p" ?p "?p = int (length toks) - 1"] "1.prems"
    obtain b1 where b1: "batch_add (toks ! nat ?p) ?p (?p = int (length toks) - 1) b = Some b1"
      "batch_wf n b1" "n_tokens b1 = i + 1"
      "batch_view b1 = batch_view b @ [(toks ! nat ?p, ?p, ?p = int (length toks) - 1)]"
      by auto
    have "\<exists>b'. fill_batch toks n_proc n_batch (i + 1) b1 = Some b' \<and> batch_wf n b' \<and>
           batch_view b' = batch_view b1 @ map (entry_at toks) [nat (n_proc + (i + 1))..<nat (n_proc + n_batch)]"
      using "1.IH"[OF True refl refl _ b1(1) b1(2)] inr b1(3) "1.prems" True by auto
    then obtain b' where b': "fill_batch toks n_proc n_batch (i + 1) b1 = Some b'" "batch_wf n b'"
      "batch_view b' = batch_view b1 @ map (entry_at toks) [nat (n_proc + (i + 1))..<nat (n_proc + n_batch)]"
      by blast
    have e: "(toks ! nat ?p, ?p, ?p = int (length toks) - 1) = entry_at toks (nat ?p)"
      using inr by (simp add: entry_at_def)
    have s: "nat (n_proc + (i + 1)) = Suc (nat ?p)" using inr by simp
    have lt: "nat ?p < nat (n_proc + n_batch)" using True inr by simp
    have "[nat ?p..<nat (n_proc + n_batch)] = nat ?p # [Suc (nat ?p)..<nat (n_proc + n_batch)]"
      using lt by (simp add: upt_conv_Cons)
    then have "batch_view b' = batch_view b @ map (entry_at toks) [nat ?p..<nat (n_proc + n_batch)]"
      using b'(3) b1(4) e s by simp
    moreover have "fill_batch toks n_proc n_batch i b = Some b'"
      using True inr b1(1) b'(1) by (subst fill_batch.simps) (simp add: Let_def)
    ultimately show ?thesis using b'(2) by blast
  qed
qed

section \<open>Properties of one generate call\<close>

subsection \<open>No access leaves the batch\<close>


lemma inv_base_start:
  "batch_wf (nat (g_batch_size s)) (g_batch s) \<Longrightarrow> inv_base s (s, start_local p m cb)"
  by (simp add: inv_base_def start_local_def)

lemma step_prefill_base:
  assumes "inv_base s0 (s, l)" "0 < g_batch_size s0" "pc l = AtPrefill"
  shows "inv_base s0 (step_prefill be (s, l))"
proof (cases "n_processed l < n_prompt l \<and> g_stop_generation_id s \<noteq> local_id l")
  case False
  with assms show ?thesis by (auto simp: step_prefill_def inv_base_def)
next
  case True
  let ?nb = "min (g_batch_size s) (n_prompt l - n_processed l)"
  have wf: "batch_wf (nat (g_batch_size s0)) (batch_clear (g_batch s))"
    using assms by (simp add: inv_base_def batch_wf_clear)
  have "\<exists>b'. fill_batch (tokens l) (n_processed l) ?nb 0 (batch_clear (g_batch s)) = Some b' \<and>
          batch_wf (nat (g_batch_size s0)) b' \<and>
          batch_view b' = batch_view (batch_clear (g_batch s)) @
             map (entry_at (tokens l)) [nat (n_processed l + 0)..<nat (n_processed l + ?nb)]"
    using assms True by (intro fill_batch_ok[OF wf]) (auto simp: inv_base_def n_tokens_clear)
  then obtain b' where b': "fill_batch (tokens l) (n_processed l) ?nb 0 (batch_clear (g_batch s)) = Some b'"
     "batch_wf (nat (g_batch_size s0)) b'" by blast
  show ?thesis
    using assms True b'
    by (auto simp: step_prefill_def inv_base_def Let_def finish_def)
qed

lemma step_decode_base:
  assumes "inv_base s0 (s, l)" "0 < g_batch_size s0" "pc l = AtDecodeLoop"
  shows "inv_base s0 (step_decode_loop be (s, l))"
proof -
  have wf: "batch_wf (nat (g_batch_size s0)) (batch_clear (g_batch s))"
    using assms by (simp add: inv_base_def batch_wf_clear)
  have ok: "\<exists>b'. batch_add t p lg (batch_clear (g_batch s)) = Some b' \<and> batch_wf (nat (g_batch_size s0)) b'" for t p lg
    using batch_add_ok[OF wf, of t p lg] assms(2) by (auto simp: n_tokens_clear)
  show ?thesis
  proof (cases "n_generated l < maxTokens l \<and> n_cur l < g_context_size s \<and>
           g_stop_generation_id s \<noteq> local_id l")
    case False
    with assms show ?thesis by (auto simp: step_decode_loop_def inv_base_def)
  next
    case True
    let ?t = "llama_sampler_sample be (length (sampled l))"
    obtain b' where b': "batch_add ?t (n_cur l) True (batch_clear (g_batch s)) = Some b'"
      "batch_wf (nat (g_batch_size s0)) b'" using ok by blast
    show ?thesis
      using assms True b'
      by (auto simp: step_decode_loop_def inv_base_def Let_def split: option.splits)
  qed
qed

lemma gen_step_base:
  assumes "inv_base s0 c" "0 < g_batch_size s0"
  shows "inv_base s0 (gen_step be c)"
proof -
  obtain s l where c: "c = (s, l)" by (cases c)
  show ?thesis
  proof (cases "pc l")
    case AtPrefill
    with assms c step_prefill_base show ?thesis by (simp add: gen_step_def)
  next
    case AtDecodeLoop
    with assms c step_decode_base show ?thesis by (simp add: gen_step_def)
  next
    case AtSetup
    with assms c show ?thesis
      by (auto simp: gen_step_def step_setup_def inv_base_def Let_def finish_def)
  qed (use assms c in \<open>auto simp: gen_step_def inv_base_def step_loaded_check_def step_gate_def
        step_mint_def step_clear_stop_def step_stop_check_def step_exit_def finish_def Let_def\<close>)
qed

subsection \<open>Every call returns\<close>


lemma gen_step_batch_size: "g_batch_size (fst (gen_step be c)) = g_batch_size (fst c)"
  by (cases c; cases "pc (snd c)")
     (auto simp: gen_step_def step_loaded_check_def step_gate_def step_mint_def step_clear_stop_def
        step_setup_def step_prefill_def step_stop_check_def step_decode_loop_def step_exit_def
        finish_def Let_def split: option.splits)

lemma gen_step_decreases:
  assumes "0 < g_batch_size (fst c)" "running c"
  shows "(gen_step be c, c) \<in> measures [\<lambda>c. pc_rank (pc (snd c)), loop_variant]"
proof -
  obtain s l where c: "c = (s, l)" by (cases c)
  show ?thesis
    using assms unfolding c
    by (cases "pc l")
       (auto simp: gen_step_def running_def loop_variant_def step_loaded_check_def step_gate_def
          step_mint_def step_clear_stop_def step_setup_def step_prefill_def step_stop_check_def
          step_decode_loop_def step_exit_def finish_def Let_def split: option.splits)
qed

lemma generate_returns:
  assumes "0 < g_batch_size s"
  shows "\<exists>t. generate be p m cb s = Some t"
proof -
  let ?P = "\<lambda>c. g_batch_size (fst c) = g_batch_size s"
  have sub: "{(t, c). (?P c \<and> running c) \<and> t = gen_step be c}
            \<subseteq> measures [\<lambda>c. pc_rank (pc (snd c)), loop_variant]"
    using assms gen_step_decreases by auto
  have w: "wf {(t, c). (?P c \<and> running c) \<and> t = gen_step be c}"
    by (rule wf_subset[OF wf_measures sub])
  have step: "\<And>c. ?P c \<Longrightarrow> running c \<Longrightarrow> ?P (gen_step be c)"
    by (simp add: gen_step_batch_size)
  have init: "?P (s, start_local p m cb)" by simp
  show ?thesis
    unfolding generate_def by (rule wf_while_option_Some[where P = ?P, OF w step init])
qed

lemma generate_invariant:
  assumes "generate be p m cb s = Some t" "P (s, start_local p m cb)"
    "\<And>c. P c \<Longrightarrow> running c \<Longrightarrow> P (gen_step be c)"
  shows "P t \<and> \<not> running t"
proof -
  have "P t"
    using assms(3) assms(1)[unfolded generate_def] assms(2) by (rule while_option_rule)
  moreover have "\<not> running t"
    using assms(1)[unfolded generate_def] by (rule while_option_stop)
  ultimately show ?thesis ..
qed

subsection \<open>The token budget\<close>






subsection \<open>Prompt evaluation\<close>


lemma take_prompt_entries:
  "k \<le> length toks \<Longrightarrow> take k (prompt_entries toks) = map (entry_at toks) [0..<k]"
  by (simp add: prompt_entries_def take_map)

lemma map_upt_append:
  "k \<le> k' \<Longrightarrow> map f [0..<k] @ map f [k..<k'] = map f [0..<k']"
  using upt_add_eq_append[of 0 k "k' - k"] by (simp flip: map_append)

lemma inv_prefill_start: "inv_prefill B (s, start_local p m cb)"
  by (simp add: inv_prefill_def start_local_def)




lemma inv_prefillI:
  assumes "\<forall>ch \<in> set (prefill_log l). ch \<noteq> [] \<and> int (length ch) \<le> B"
    "pc l = AtLoadedCheck \<or> pc l = AtGate \<or> pc l = AtMint \<or> pc l = AtClearStop \<or>
         pc l = AtSetup \<longrightarrow> prefill_log l = []"
    "k \<le> length (tokens l)"
    "concat (prefill_log l) = take k (prompt_entries (tokens l))"
    "pc l = AtPrefill \<longrightarrow> int k = n_processed l"
    "pc l = AtStopCheck \<longrightarrow> k = length (tokens l) \<or> g_stop_generation_id s = local_id l"
    "pc l = AtDecodeLoop \<or> pc l = AtExit \<longrightarrow> k = length (tokens l)"
    "pc l = Finished \<longrightarrow> (\<forall>r. returned l = Some (Inr r) \<longrightarrow>
                 k = length (tokens l) \<or> g_stop_generation_id s = local_id l)"
  shows "inv_prefill B (s, l)"
  unfolding inv_prefill_def using assms by blast

lemma step_prefill_prefill:
  assumes "inv_prefill (g_batch_size s0) (s, l)" "inv_base s0 (s, l)" "0 < g_batch_size s0"
    "pc l = AtPrefill"
  shows "inv_prefill (g_batch_size s0) (step_prefill be (s, l))"
proof -
  from assms(1,4) obtain k where k: "k \<le> length (tokens l)"
    "concat (prefill_log l) = take k (prompt_entries (tokens l))" "int k = n_processed l"
    and chunks: "\<forall>ch \<in> set (prefill_log l). ch \<noteq> [] \<and> int (length ch) \<le> g_batch_size s0"
    by (auto simp: inv_prefill_def)
  show ?thesis
  proof (cases "n_processed l < n_prompt l \<and> g_stop_generation_id s \<noteq> local_id l")
    case False
    then have stop: "k = length (tokens l) \<or> g_stop_generation_id s = local_id l"
      using k by auto
    have res: "step_prefill be (s, l) = (s, l\<lparr>pc := AtStopCheck\<rparr>)"
      using False unfolding step_prefill_def by (simp only: prod.case if_False)
    have "inv_prefill (g_batch_size s0) (s, l\<lparr>pc := AtStopCheck\<rparr>)"
      by (rule inv_prefillI[where k = k]) (use chunks k stop in \<open>simp_all\<close>)
    with res show ?thesis by simp
  next
    case True
    let ?nb = "min (g_batch_size s) (n_prompt l - n_processed l)"
    have bs: "g_batch_size s = g_batch_size s0" using assms(2) by (simp add: inv_base_def)
    have nb: "1 \<le> ?nb" "?nb \<le> g_batch_size s0" "n_processed l + ?nb \<le> n_prompt l"
      using True assms(3) bs by auto
    have wf: "batch_wf (nat (g_batch_size s0)) (batch_clear (g_batch s))"
      using assms by (simp add: inv_base_def batch_wf_clear)
    have "\<exists>b'. fill_batch (tokens l) (n_processed l) ?nb 0 (batch_clear (g_batch s)) = Some b' \<and>
          batch_wf (nat (g_batch_size s0)) b' \<and>
          batch_view b' = batch_view (batch_clear (g_batch s)) @
             map (entry_at (tokens l)) [nat (n_processed l + 0)..<nat (n_processed l + ?nb)]"
      using assms True by (intro fill_batch_ok[OF wf]) (auto simp: inv_base_def n_tokens_clear)
    then obtain b' where b': "fill_batch (tokens l) (n_processed l) ?nb 0 (batch_clear (g_batch s)) = Some b'"
      "batch_view b' = map (entry_at (tokens l)) [nat (n_processed l)..<nat (n_processed l + ?nb)]"
      by (auto simp: batch_view_clear)
    let ?k' = "nat (n_processed l + ?nb)"
    have kk: "nat (n_processed l) = k" "k \<le> ?k'" "?k' \<le> length (tokens l)" "int ?k' = n_processed l + ?nb"
      using k nb by auto
    have len: "length (batch_view b') = nat ?nb" "batch_view b' \<noteq> []"
      using b'(2) kk nb k(3) by auto
    have cc: "concat (prefill_log l @ [batch_view b']) = take ?k' (prompt_entries (tokens l))"
      using k(1,2) kk b'(2) by (simp add: take_prompt_entries map_upt_append)
    define rc where "rc = llama_decode be (length (prefill_log l) + length (decode_log l)) (batch_view b')"
    define l1 where "l1 = l\<lparr>prefill_log := prefill_log l @ [batch_view b']\<rparr>"
    have res: "step_prefill be (s, l) =
        (if rc \<noteq> 0 then (s\<lparr>g_batch := b', g_is_generating := False\<rparr>, finish (Inl PromptEvalFailed) l1)
         else (s\<lparr>g_batch := b'\<rparr>, l1\<lparr>n_processed := n_processed l + ?nb\<rparr>))"
      using True b'(1) by (simp add: step_prefill_def Let_def rc_def l1_def)
    have ch1: "\<forall>ch \<in> set (prefill_log l1). ch \<noteq> [] \<and> int (length ch) \<le> g_batch_size s0"
      using chunks len nb by (auto simp: l1_def)
    have cc1: "concat (prefill_log l1) = take ?k' (prompt_entries (tokens l1))" "?k' \<le> length (tokens l1)"
      using cc kk by (simp_all add: l1_def)
    show ?thesis
    proof (cases "rc \<noteq> 0")
      case True
      have "inv_prefill (g_batch_size s0) (s\<lparr>g_batch := b', g_is_generating := False\<rparr>, finish (Inl PromptEvalFailed) l1)"
        by (rule inv_prefillI[where k = ?k']) (use ch1 cc1 in \<open>simp_all add: finish_def\<close>)
      with True res show ?thesis by simp
    next
      case False
      have "inv_prefill (g_batch_size s0) (s\<lparr>g_batch := b'\<rparr>, l1\<lparr>n_processed := n_processed l + ?nb\<rparr>)"
        by (rule inv_prefillI[where k = ?k']) (use ch1 cc1 kk assms(4) in \<open>simp_all add: l1_def\<close>)
      with False res show ?thesis by simp
    qed
  qed
qed




lemma gen_step_prefill:
  assumes "inv_prefill (g_batch_size s0) c" "inv_base s0 c" "0 < g_batch_size s0"
  shows "inv_prefill (g_batch_size s0) (gen_step be c)"
proof -
  obtain s l where c: "c = (s, l)" by (cases c)
  show ?thesis
  proof (cases "pc l")
    case AtPrefill
    with assms c step_prefill_prefill show ?thesis by (simp add: gen_step_def)
  next
    case AtSetup
    with assms(1) c show ?thesis
      by (auto simp: gen_step_def step_setup_def inv_prefill_def Let_def finish_def)
  next
    case AtDecodeLoop
    with assms(1) c show ?thesis
      by (auto simp: gen_step_def step_decode_loop_def inv_prefill_def Let_def finish_def
          split: option.splits)
  next
    case AtStopCheck
    with assms(1) c show ?thesis
      by (auto simp: gen_step_def step_stop_check_def inv_prefill_def Let_def finish_def)
  next
    case AtExit
    with assms(1) c show ?thesis
      by (auto simp: gen_step_def step_exit_def inv_prefill_def Let_def finish_def)
  qed (use assms(1) c in \<open>auto simp: gen_step_def inv_prefill_def step_loaded_check_def step_gate_def
        step_mint_def step_clear_stop_def finish_def Let_def\<close>)
qed

lemma inv_prefill_chunks:
  "inv_prefill B (s, l) \<Longrightarrow> \<forall>ch \<in> set (prefill_log l). ch \<noteq> [] \<and> int (length ch) \<le> B"
  unfolding inv_prefill_def by simp

lemma inv_prefill_prefix:
  "inv_prefill B (s, l) \<Longrightarrow>
     \<exists>k. k \<le> length (tokens l) \<and> concat (prefill_log l) = take k (prompt_entries (tokens l)) \<and>
       (pc l = Finished \<longrightarrow> (\<forall>r. returned l = Some (Inr r) \<longrightarrow>
          k = length (tokens l) \<or> g_stop_generation_id s = local_id l))"
  unfolding inv_prefill_def by blast

lemma prompt_entries_logits:
  assumes "e \<in> set (take k (prompt_entries toks))"
  shows "snd (snd e) \<longleftrightarrow> fst (snd e) = int (length toks) - 1"
proof -
  from assms have "e \<in> set (prompt_entries toks)"
    by (rule in_set_takeD)
  then show ?thesis
    by (auto simp: prompt_entries_def entry_at_def)
qed

subsection \<open>The token loop\<close>






lemma inv_decode_start: "inv_decode (s, start_local p m cb)"
  by (simp add: inv_decode_def start_local_def)

lemma gen_step_decode:
  assumes "inv_decode c" "inv_base s0 c" "0 < g_batch_size s0"
  shows "inv_decode (gen_step be c)"
proof -
  obtain s l where c: "c = (s, l)"
    by (cases c)
  show ?thesis
  proof (cases "pc l")
    case AtSetup
    with assms(1) c show ?thesis
      by (auto simp: gen_step_def step_setup_def inv_decode_def Let_def finish_def)
  next
    case AtPrefill
    with assms(1) c show ?thesis
      by (auto simp: gen_step_def step_prefill_def inv_decode_def Let_def finish_def
          split: option.splits)
  next
    case AtDecodeLoop
    have wf: "batch_wf (nat (g_batch_size s0)) (batch_clear (g_batch s))"
      using assms(2) c by (simp add: inv_base_def batch_wf_clear)
    have one: "batch_add t q True (batch_clear (g_batch s)) = Some b \<Longrightarrow>
                 batch_view b = [(t, q, True)]" for t q b
      using batch_add_ok[OF wf, of t q True] assms(3)
      by (auto simp: n_tokens_clear batch_view_clear)
    from AtDecodeLoop assms(1) c one show ?thesis
      by (auto simp: gen_step_def step_decode_loop_def inv_decode_def Let_def finish_def
          split: option.splits)
  qed (use assms(1) c in \<open>auto simp: gen_step_def inv_decode_def step_loaded_check_def
        step_gate_def step_mint_def step_clear_stop_def step_stop_check_def step_exit_def
        finish_def Let_def\<close>)
qed

section \<open>The generating flag\<close>


lemmas step_unfold = gen_step_def step_loaded_check_def step_gate_def step_mint_def
  step_clear_stop_def step_setup_def step_prefill_def step_stop_check_def step_decode_loop_def
  step_exit_def finish_def Let_def

lemma gen_step_flag:
  assumes "gen_step be (s, l) = (s', l')"
  shows "(holds_flag l' = holds_flag l \<and> g_is_generating s' = g_is_generating s) \<or>
         (\<not> holds_flag l \<and> holds_flag l' \<and> \<not> g_is_generating s \<and> g_is_generating s') \<or>
         (holds_flag l \<and> \<not> holds_flag l' \<and> \<not> g_is_generating s')"
  using assms
  by (cases "pc l") (auto simp: step_unfold holds_flag_def split: option.splits if_splits)

lemma filter_update_count:
  "i < length ts \<Longrightarrow>
     length (filter P (ts[i := x])) + (if P (ts ! i) then 1 else 0) =
     length (filter P ts) + (if P x then 1 else 0)"
proof (induction ts arbitrary: i)
  case Nil
  then show ?case by simp
next
  case (Cons a ts)
  then show ?case by (cases i) auto
qed

lemma sys_step_flag_inv:
  assumes "flag_inv c"
  shows "flag_inv (sys_step be ev c)"
proof -
  obtain s ts where c: "c = (s, ts)" by (cases c)
  show ?thesis
  proof (cases ev)
    case (CallGenerate p m cb)
    with assms c show ?thesis by (simp add: flag_inv_def holds_flag_def start_local_def)
  next
    case (GenStep i)
    show ?thesis
    proof (cases "i < length ts")
      case False
      with assms c GenStep show ?thesis by simp
    next
      case True
      obtain s' l' where st: "gen_step be (s, ts ! i) = (s', l')" by (cases "gen_step be (s, ts ! i)")
      have cnt: "length (filter holds_flag (ts[i := l'])) + (if holds_flag (ts ! i) then 1 else 0) =
                 length (filter holds_flag ts) + (if holds_flag l' then 1 else 0)"
        using True by (rule filter_update_count)
      have mem: "holds_flag (ts ! i) \<Longrightarrow> 0 < length (filter holds_flag ts)"
        using True by (metis filter_empty_conv length_greater_0_conv nth_mem)
      have inv: "length (filter holds_flag ts) = (if g_is_generating s then 1 else 0)"
        using assms c by (simp add: flag_inv_def)
      have "length (filter holds_flag (ts[i := l'])) = (if g_is_generating s' then 1 else 0)"
        using gen_step_flag[OF st] cnt mem inv by (auto split: if_splits)
      with True st GenStep c show ?thesis by (simp add: flag_inv_def)
    qed
  next
    case CallStop
    with assms c show ?thesis by (simp add: flag_inv_def stopGeneration_def)
  next
    case CallUnload
    with assms c show ?thesis by (simp add: flag_inv_def unloadModel_flag)
  next
    case (CallLoad env a b d)
    with assms c show ?thesis by (simp add: flag_inv_def loadModel_flag)
  qed
qed

lemma run_events_flag_inv: "flag_inv c \<Longrightarrow> flag_inv (run_events be evs c)"
  unfolding run_events_def by (induction evs arbitrary: c) (simp_all add: sys_step_flag_inv)

lemma flag_inv_initial: "flag_inv (initial_globals, [])"
  by (simp add: flag_inv_def initial_globals_def)

lemma generate_unfold_step: "running c \<Longrightarrow>
  while_option running (gen_step be) c = while_option running (gen_step be) (gen_step be c)"
  by (subst while_option_unfold) simp

lemma generate_unfold_stop: "\<not> running c \<Longrightarrow> while_option running (gen_step be) c = Some c"
  by (subst while_option_unfold) simp

lemma generate_rejected:
  assumes "g_is_generating s"
  shows "generate be p m cb s =
     Some (s, (start_local p m cb)\<lparr>pc := Finished,
        returned := Some (Inl (if session_ready s then AlreadyGenerating else ModelNotLoaded))\<rparr>)"
proof -
  let ?l0 = "start_local p m cb"
  have r0: "running (s, ?l0)" by (simp add: running_def start_local_def)
  show ?thesis
  proof (cases "session_ready s")
    case False
    let ?l1 = "?l0\<lparr>pc := Finished, returned := Some (Inl ModelNotLoaded)\<rparr>"
    have s1: "gen_step be (s, ?l0) = (s, ?l1)"
      using False by (auto simp: gen_step_def step_loaded_check_def finish_def start_local_def session_ready_def)
    have r1: "\<not> running (s, ?l1)" by (simp add: running_def)
    show ?thesis
      using False by (simp add: generate_def generate_unfold_step[OF r0] s1 generate_unfold_stop[OF r1])
  next
    case True
    let ?l1 = "?l0\<lparr>pc := AtGate\<rparr>"
    let ?l2 = "?l0\<lparr>pc := Finished, returned := Some (Inl AlreadyGenerating)\<rparr>"
    have s1: "gen_step be (s, ?l0) = (s, ?l1)"
      using True by (auto simp: gen_step_def step_loaded_check_def finish_def start_local_def session_ready_def)
    have r1: "running (s, ?l1)" by (simp add: running_def)
    have same: "s\<lparr>g_is_generating := True\<rparr> = s" using assms by simp
    have s2: "gen_step be (s, ?l1) = (s, ?l2)"
      using assms same by (simp add: gen_step_def step_gate_def finish_def start_local_def Let_def)
    have r2: "\<not> running (s, ?l2)" by (simp add: running_def)
    show ?thesis
      using True
      by (simp add: generate_def generate_unfold_step[OF r0] s1 generate_unfold_step[OF r1] s2
          generate_unfold_stop[OF r2])
  qed
qed


section \<open>Concrete runs\<close>

text \<open>The definitions to unfold when a call is evaluated on concrete inputs.\<close>


lemmas gen_eval = step_unfold clamp_max_tokens_def truncate_prompt_def tokenize_prompt_def
  tokenize_prompt_log_def token_fragment_def token_to_str_log_def resize_vec_def write_buf_def
  batch_clear_def batch_add_def slot_allocated_def batch_view_def fill_batch.simps
  start_local_def running_def llama_batch_init_def c_str_def

lemma upt_0_2: "[0..<2] = [0, Suc 0]"
  by (simp add: numeral_2_eq_2)

lemma demo_generate:
  "map_option (\<lambda>(s, l). (returned l, prefill_log l, decode_log l, sampled l, streamed l,
       g_is_generating s))
     (generate demo_backend ''Hello'' 3 True demo_loaded) =
   Some (Some (Inr ''iii''), [[(1, 0, False), (72, 1, True)]],
     [[(105, 2, True)], [(105, 3, True)], [(105, 4, True)]], [105, 105, 105],
     [''i'', ''i'', ''i''], False)"
  by (simp add: generate_def while_option_unfold demo_loaded_def demo_backend_def gen_eval
      upt_0_2)

lemma demo_loaded_ok:
  "0 < g_batch_size demo_loaded" "1 \<le> g_max_gen_tokens demo_loaded"
  "batch_wf (nat (g_batch_size demo_loaded)) (g_batch demo_loaded)"
  by (simp_all add: demo_loaded_def batch_wf_def llama_batch_init_def)

section \<open>Mutual exclusion of generate calls\<close>

text \<open>
  Claim C1, as the code has it. In every interleaving of generate calls with
  \<open>stopGeneration\<close>, \<open>unloadModel\<close> and \<open>loadModel\<close> calls, started from the
  initial state, at most one generate call holds the generating flag, and one does
  exactly when the flag is set. A generate call that finds the flag set returns at
  once and leaves the globals as they are; it returns the already-generating error
  when the session is loaded, and the not-loaded error when the session has been
  unloaded in the meantime, because the test of line 366 comes before the exchange of
  line 370.
\<close>


theorem generate_gate:
  "(case run_events be evs (initial_globals, []) of
      (s, ts) \<Rightarrow> length (filter holds_flag ts) \<le> 1 \<and>
                 length (filter holds_flag ts) = (if g_is_generating s then 1 else 0)) \<and>
   (g_is_generating s1 \<longrightarrow>
      generate be p m cb s1 =
        Some (s1, (start_local p m cb)\<lparr>pc := Finished,
           returned := Some (Inl (if session_ready s1 then AlreadyGenerating
                                  else ModelNotLoaded))\<rparr>))"
proof -
  have "flag_inv (run_events be evs (initial_globals, []))"
    using flag_inv_initial by (rule run_events_flag_inv)
  then have "case run_events be evs (initial_globals, []) of
      (s, ts) \<Rightarrow> length (filter holds_flag ts) \<le> 1 \<and>
                 length (filter holds_flag ts) = (if g_is_generating s then 1 else 0)"
    by (auto simp: flag_inv_def)
  then show ?thesis
    using generate_rejected[of s1 be p m cb] by blast
qed

text \<open>Witness: with the flag set on the loaded demo session a second call is refused
  with the already-generating error and the globals are unchanged.\<close>


theorem generate_gate_witness:
  "g_is_generating (demo_loaded\<lparr>g_is_generating := True\<rparr>) \<and>
   map_option (\<lambda>c. (fst c = demo_loaded\<lparr>g_is_generating := True\<rparr>, returned (snd c)))
     (generate demo_backend ''Hello'' 3 True (demo_loaded\<lparr>g_is_generating := True\<rparr>)) =
     Some (True, Some (Inl AlreadyGenerating))"
  using generate_gate[of demo_backend "[]" "demo_loaded\<lparr>g_is_generating := True\<rparr>" "''Hello''" 3 True]
  by (simp add: session_ready_def demo_loaded_def)

text \<open>
  The claim as stated, that the second call always fails with the already-generating
  error, does not hold: a first call has passed the gate, \<open>unloadModel\<close> runs, and a
  second call then fails with the not-loaded error while the first still holds the
  flag.
\<close>


theorem generate_after_unload_counterexample:
  "case run_events demo_backend
          [CallLoad demo_env 512 4 0, CallGenerate ''Hello'' 3 True, GenStep 0, GenStep 0,
           CallUnload, CallGenerate ''again'' 3 True, GenStep 1] (initial_globals, []) of
     (s, ts) \<Rightarrow> g_is_generating s \<and> map holds_flag ts = [True, False] \<and>
                map returned ts = [None, Some (Inl ModelNotLoaded)]"
  by (simp add: run_events_def demo_load)
     (simp add: demo_loaded_def demo_backend_def gen_eval unloadModel_def backend_free_def
        llama_batch_free_def holds_flag_def)

section \<open>Cancellation\<close>

text \<open>Once the stop id equals the call's id, the next loop test of the call sees it:
  the prompt loop and the token loop are left, and the test after the prompt loop
  returns the empty result.\<close>


lemma stop_seen_at_next_test:
  assumes "g_stop_generation_id s = local_id l"
  shows "(pc l = AtPrefill \<longrightarrow> gen_step be (s, l) = (s, l\<lparr>pc := AtStopCheck\<rparr>)) \<and>
         (pc l = AtStopCheck \<longrightarrow>
            gen_step be (s, l) = (s\<lparr>g_is_generating := False\<rparr>, finish (Inr []) l)) \<and>
         (pc l = AtDecodeLoop \<longrightarrow> gen_step be (s, l) = (s, l\<lparr>pc := AtExit\<rparr>))"
  using assms by (simp add: gen_step_def step_prefill_def step_stop_check_def step_decode_loop_def)

text \<open>
  Claim C2 at a failing schedule. A generate call on the loaded demo session executes
  line 374 and has the id 1; another thread then calls \<open>stopGeneration\<close>, which
  stores 1, the current generation id, into the stop id; the generate call then
  executes line 375 and stores 0 over it. The first part states the situation right
  after the stop request, the second the end of the run: the call has streamed all
  three tokens and returned them, and the stop id is 0.
\<close>


theorem stop_between_mint_and_clear_is_lost:
  "(case run_events demo_backend
          [CallLoad demo_env 512 4 0, CallGenerate ''Hello'' 3 True, GenStep 0, GenStep 0,
           GenStep 0, CallStop] (initial_globals, []) of
     (s, ts) \<Rightarrow> map pc ts = [AtClearStop] \<and> map local_id ts = [g_generation_id s] \<and>
                g_stop_generation_id s = g_generation_id s) \<and>
   (case run_events demo_backend
          [CallLoad demo_env 512 4 0, CallGenerate ''Hello'' 3 True, GenStep 0, GenStep 0,
           GenStep 0, CallStop, GenStep 0, GenStep 0, GenStep 0, GenStep 0, GenStep 0,
           GenStep 0, GenStep 0, GenStep 0, GenStep 0, GenStep 0] (initial_globals, []) of
     (s, ts) \<Rightarrow> map returned ts = [Some (Inr ''iii'')] \<and>
                map streamed ts = [[''i'', ''i'', ''i'']] \<and>
                g_stop_generation_id s = 0 \<and> map local_id ts = [1])"
  by (simp add: run_events_def demo_load)
     (simp add: demo_loaded_def demo_backend_def gen_eval stopGeneration_def upt_0_2)

section \<open>The token budget of a call\<close>



section \<open>Prompt truncation\<close>


lemma step_setup_tokens:
  assumes "step_setup be (s, l) = (s', l')" "pc l' = AtPrefill" "pc l = AtSetup"
  shows "tokens l' = truncate_prompt (g_context_size s)
            (clamp_max_tokens (g_max_gen_tokens s) (maxTokens l))
            (tokenize_prompt be (g_vocab s) (prompt l) True)"
  using assms by (auto simp: step_setup_def Let_def finish_def split: if_splits)

text \<open>
  Claim C6, as the code has it. A token sequence longer than
  \<open>context_size - max_tokens - 16\<close> is cut to exactly its trailing
  \<open>max 0 (context_size - max_tokens - 16)\<close> tokens, so to nothing when that bound is
  not positive; a sequence at or under the bound is unchanged. The setup step of
  generate applies this to the tokenized prompt with the stored context size and the
  clamped token budget.
\<close>


theorem truncate_prompt_keeps_tail:
  "(int (length toks) > ctx - mt - 16 \<longrightarrow>
      is_trailing (max 0 (ctx - mt - 16)) toks (truncate_prompt ctx mt toks)) \<and>
   (int (length toks) \<le> ctx - mt - 16 \<longrightarrow> truncate_prompt ctx mt toks = toks) \<and>
   (pc l = AtSetup \<and> pc (snd (gen_step be (s, l))) = AtPrefill \<longrightarrow>
      tokens (snd (gen_step be (s, l))) =
        truncate_prompt (g_context_size s)
          (clamp_max_tokens (g_max_gen_tokens s) (maxTokens l))
          (tokenize_prompt be (g_vocab s) (prompt l) True))"
proof -
  have a: "int (length toks) > ctx - mt - 16 \<longrightarrow>
      is_trailing (max 0 (ctx - mt - 16)) toks (truncate_prompt ctx mt toks)"
    by (auto simp: is_trailing_def truncate_prompt_def Let_def max_def nat_diff_distrib')
  have b: "int (length toks) \<le> ctx - mt - 16 \<longrightarrow> truncate_prompt ctx mt toks = toks"
    by (auto simp: truncate_prompt_def Let_def)
  have c: "pc l = AtSetup \<and> pc (snd (gen_step be (s, l))) = AtPrefill \<longrightarrow>
      tokens (snd (gen_step be (s, l))) =
        truncate_prompt (g_context_size s)
          (clamp_max_tokens (g_max_gen_tokens s) (maxTokens l))
          (tokenize_prompt be (g_vocab s) (prompt l) True)"
    using step_setup_tokens[of be s l "fst (step_setup be (s, l))" "snd (step_setup be (s, l))"]
    by (auto simp: gen_step_def)
  from a b c show ?thesis by blast
qed

text \<open>Witness: with a context of 30 and a budget of 10 the bound is 4; six tokens are
  cut to the last four, three tokens are kept. In the session with a context of 20 and
  a budget of 3 the bound is 1, and the setup step keeps the last of the two prompt
  tokens.\<close>


theorem truncate_prompt_keeps_tail_witness:
  "int (length [1, 2, 3, 4, 5, 6 :: int]) > 30 - 10 - 16 \<and>
   truncate_prompt 30 10 [1, 2, 3, 4, 5, 6] = [3, 4, 5, 6] \<and>
   is_trailing 4 [1, 2, 3, 4, 5, 6 :: int] (truncate_prompt 30 10 [1, 2, 3, 4, 5, 6]) \<and>
   int (length [1, 2, 3 :: int]) \<le> 30 - 10 - 16 \<and>
   truncate_prompt 30 10 [1, 2, 3] = [1, 2, 3] \<and>
   pc ((start_local ''Hello'' 3 True)\<lparr>pc := AtSetup\<rparr>) = AtSetup \<and>
   pc (snd (gen_step demo_backend
         (demo_small_context, (start_local ''Hello'' 3 True)\<lparr>pc := AtSetup\<rparr>))) = AtPrefill \<and>
   tokens (snd (gen_step demo_backend
         (demo_small_context, (start_local ''Hello'' 3 True)\<lparr>pc := AtSetup\<rparr>))) = [72]"
  using truncate_prompt_keeps_tail[where toks = "[1, 2, 3, 4, 5, 6]" and ctx = 30 and mt = 10]
    truncate_prompt_keeps_tail[where toks = "[1, 2, 3]" and ctx = 30 and mt = 10
      and l = "(start_local ''Hello'' 3 True)\<lparr>pc := AtSetup\<rparr>" and be = demo_backend
      and s = demo_small_context]
  by (simp add: truncate_prompt_def is_trailing_def)
     (simp add: demo_small_context_def demo_loaded_def demo_backend_def gen_eval)

text \<open>
  The claim as stated fails when the bound is negative: with a context of 100 and a
  budget of 256 the bound is -172, every prompt is longer than it, and the code
  evaluates the empty prompt, which is not the trailing -172 tokens of anything.
\<close>


theorem truncate_prompt_negative_bound_counterexample:
  "int (length [1, 2, 3 :: int]) > 100 - 256 - 16 \<and>
   truncate_prompt 100 256 [1, 2, 3] = [] \<and>
   \<not> is_trailing (100 - 256 - 16) [1, 2, 3 :: int] (truncate_prompt 100 256 [1, 2, 3])"
  by (simp add: truncate_prompt_def is_trailing_def)

section \<open>Prompt evaluation in chunks\<close>

lemma demo_two_slots_ok:
  "0 < g_batch_size demo_two_slots"
  "batch_wf (nat (g_batch_size demo_two_slots)) (g_batch demo_two_slots)"
  by (simp_all add: demo_two_slots_def demo_loaded_def batch_wf_def llama_batch_init_def)

lemma five_token_generate:
  "map_option (\<lambda>(s, l). (pc l, returned l, prefill_log l))
     (generate five_token_backend ''Hello'' 1 True demo_two_slots) =
   Some (Finished, Some (Inr ''i''),
     [[(11, 0, False), (12, 1, False)], [(13, 2, False), (14, 3, False)], [(15, 4, True)]])"
  by (simp add: generate_def while_option_unfold demo_two_slots_def demo_loaded_def
      five_token_backend_def demo_backend_def gen_eval upt_0_2)

text \<open>
  Claim C7. On a batch with \<open>g_batch_size\<close> slots, with a positive batch size, every
  generate call returns without a write outside the batch (it ends in \<open>Finished\<close>),
  and the batches it submitted while evaluating the prompt are non-empty chunks of
  at most \<open>g_batch_size\<close> entries whose concatenation is an initial part of the
  prompt's entries: token \<open>k\<close> at position \<open>k\<close>, with the logits flag set exactly
  at position \<open>n_prompt - 1\<close>. Each submitted batch holds its own chunk only, so the
  batch was empty when the chunk was written. When the call returns a text and was
  not cancelled, the whole prompt was submitted.
\<close>

theorem prefill_in_chunks:
  assumes "0 < g_batch_size s" "batch_wf (nat (g_batch_size s)) (g_batch s)"
  shows "\<exists>s' l. generate be p m cb s = Some (s', l) \<and>
           pc l = Finished \<and>
           (\<forall>ch \<in> set (prefill_log l). ch \<noteq> [] \<and> int (length ch) \<le> g_batch_size s) \<and>
           (\<exists>k. k \<le> length (tokens l) \<and>
              concat (prefill_log l) = take k (prompt_entries (tokens l)) \<and>
              ((\<exists>r. returned l = Some (Inr r)) \<and> g_stop_generation_id s' \<noteq> local_id l
                 \<longrightarrow> k = length (tokens l))) \<and>
           (\<forall>e \<in> set (concat (prefill_log l)).
              snd (snd e) \<longleftrightarrow> fst (snd e) = n_prompt l - 1)"
proof -
  let ?P = "\<lambda>c. inv_base s c \<and> inv_prefill (g_batch_size s) c"
  obtain t where t: "generate be p m cb s = Some t"
    using generate_returns[OF assms(1)] by blast
  obtain s' l where sl: "t = (s', l)"
    by (cases t)
  have init: "?P (s, start_local p m cb)"
    using assms(2) by (simp add: inv_base_start inv_prefill_start)
  have step: "\<And>c. ?P c \<Longrightarrow> running c \<Longrightarrow> ?P (gen_step be c)"
    using assms(1) by (simp add: gen_step_base gen_step_prefill)
  have fin: "?P t \<and> \<not> running t"
    using t init step by (rule generate_invariant)
  then have pcf: "pc l = Finished"
    using sl by (auto simp: running_def inv_base_def)
  have ip: "inv_prefill (g_batch_size s) (s', l)"
    using fin sl by simp
  have chunks: "\<forall>ch \<in> set (prefill_log l). ch \<noteq> [] \<and> int (length ch) \<le> g_batch_size s"
    using ip by (rule inv_prefill_chunks)
  from inv_prefill_prefix[OF ip] obtain k where k: "k \<le> length (tokens l)"
    "concat (prefill_log l) = take k (prompt_entries (tokens l))"
    "pc l = Finished \<longrightarrow> (\<forall>r. returned l = Some (Inr r) \<longrightarrow>
        k = length (tokens l) \<or> g_stop_generation_id s' = local_id l)"
    by blast
  have lg: "\<forall>e \<in> set (concat (prefill_log l)). snd (snd e) \<longleftrightarrow> fst (snd e) = n_prompt l - 1"
  proof
    fix e
    assume "e \<in> set (concat (prefill_log l))"
    then have "e \<in> set (take k (prompt_entries (tokens l)))"
      by (simp only: k(2))
    then show "snd (snd e) \<longleftrightarrow> fst (snd e) = n_prompt l - 1"
      by (rule prompt_entries_logits)
  qed
  have whole: "(\<exists>r. returned l = Some (Inr r)) \<and> g_stop_generation_id s' \<noteq> local_id l
                 \<longrightarrow> k = length (tokens l)"
    using k(3) pcf by auto
  have ex: "\<exists>k. k \<le> length (tokens l) \<and>
              concat (prefill_log l) = take k (prompt_entries (tokens l)) \<and>
              ((\<exists>r. returned l = Some (Inr r)) \<and> g_stop_generation_id s' \<noteq> local_id l
                 \<longrightarrow> k = length (tokens l))"
    using k(1,2) whole by (intro exI[of _ k] conjI)
  show ?thesis
    using t sl pcf chunks ex lg by (intro exI[of _ s'] exI[of _ l] conjI) simp_all
qed

text \<open>Witness: on a batch of two slots a prompt of five tokens goes out as three
  chunks, two that fill the batch and a last one of one entry, which alone carries
  the logits flag; on the loaded demo session the two prompt tokens go out as one
  chunk.\<close>

theorem prefill_in_chunks_witness:
  "0 < g_batch_size demo_two_slots \<and>
   batch_wf (nat (g_batch_size demo_two_slots)) (g_batch demo_two_slots) \<and>
   g_batch_size demo_two_slots = 2 \<and>
   (\<exists>s' l. generate five_token_backend ''Hello'' 1 True demo_two_slots = Some (s', l) \<and>
      pc l = Finished \<and>
      prefill_log l =
        [[(11, 0, False), (12, 1, False)], [(13, 2, False), (14, 3, False)], [(15, 4, True)]] \<and>
      (\<forall>ch \<in> set (prefill_log l). ch \<noteq> [] \<and> int (length ch) \<le> 2)) \<and>
   0 < g_batch_size demo_loaded \<and>
   batch_wf (nat (g_batch_size demo_loaded)) (g_batch demo_loaded) \<and>
   (\<exists>s' l. generate demo_backend ''Hello'' 3 True demo_loaded = Some (s', l) \<and>
      pc l = Finished \<and> prefill_log l = [[(1, 0, False), (72, 1, True)]])"
proof -
  have h2: "0 < g_batch_size demo_two_slots"
    "batch_wf (nat (g_batch_size demo_two_slots)) (g_batch demo_two_slots)"
    by (rule demo_two_slots_ok)+
  have b2: "g_batch_size demo_two_slots = 2"
    by (simp add: demo_two_slots_def)
  from prefill_in_chunks[OF h2, of five_token_backend "''Hello''" 1 True]
  obtain s2 l2 where r2:
    "generate five_token_backend ''Hello'' 1 True demo_two_slots = Some (s2, l2)"
    "pc l2 = Finished"
    "\<forall>ch \<in> set (prefill_log l2). ch \<noteq> [] \<and> int (length ch) \<le> g_batch_size demo_two_slots"
    by blast
  have p2: "prefill_log l2 =
      [[(11, 0, False), (12, 1, False)], [(13, 2, False), (14, 3, False)], [(15, 4, True)]]"
    using five_token_generate r2(1) by simp
  have e2: "\<exists>s' l. generate five_token_backend ''Hello'' 1 True demo_two_slots = Some (s', l) \<and>
      pc l = Finished \<and>
      prefill_log l =
        [[(11, 0, False), (12, 1, False)], [(13, 2, False), (14, 3, False)], [(15, 4, True)]] \<and>
      (\<forall>ch \<in> set (prefill_log l). ch \<noteq> [] \<and> int (length ch) \<le> 2)"
    using r2 p2 b2 by (intro exI[of _ s2] exI[of _ l2] conjI) simp_all
  have h: "0 < g_batch_size demo_loaded"
    "batch_wf (nat (g_batch_size demo_loaded)) (g_batch demo_loaded)"
    by (rule demo_loaded_ok)+
  from prefill_in_chunks[OF h, of demo_backend "''Hello''" 3 True]
  obtain s' l where r: "generate demo_backend ''Hello'' 3 True demo_loaded = Some (s', l)"
    "pc l = Finished"
    by blast
  have "prefill_log l = [[(1, 0, False), (72, 1, True)]]"
    using demo_generate r(1) by simp
  then have e1: "\<exists>s' l. generate demo_backend ''Hello'' 3 True demo_loaded = Some (s', l) \<and>
      pc l = Finished \<and> prefill_log l = [[(1, 0, False), (72, 1, True)]]"
    using r by (intro exI[of _ s'] exI[of _ l] conjI) simp_all
  show ?thesis
    using h2 b2 e2 h e1 by (intro conjI)
qed

section \<open>The retry after a too small buffer\<close>



















section \<open>Batch writes stay inside the batch\<close>

lemma batch_add_None_iff: "batch_add t q lg b = None \<longleftrightarrow> \<not> slot_allocated b (n_tokens b)"
  by (simp add: batch_add_def Let_def)

lemma loadModel_batch_ready:
  assumes "fst (loadModel env nCtx nThreads nGpuLayers s0)"
  shows "0 < g_batch_size (snd (loadModel env nCtx nThreads nGpuLayers s0)) \<and>
         batch_wf (nat (g_batch_size (snd (loadModel env nCtx nThreads nGpuLayers s0))))
           (g_batch (snd (loadModel env nCtx nThreads nGpuLayers s0)))"
  using assms applyDeviceConfig_positive[of "env_device env" "release_existing s0"]
  by (auto simp add: loadModel_def Let_def backend_alloc_def backend_free_def batch_wf_init
      split: option.splits if_splits)

text \<open>
  Claim C9. A successful \<open>loadModel\<close> leaves a positive batch size and a batch with
  that many slots. From any such state every generate call returns without a write
  or read outside its array (the call ends in \<open>Finished\<close>, never in \<open>Faulted\<close>, the
  state a step enters when \<open>batch_add\<close> meets an index without a slot), the batch
  keeps its slots, every batch of the prompt loop holds between 1 and
  \<open>g_batch_size\<close> entries and every batch of the token loop holds exactly one.
\<close>


theorem batch_writes_in_bounds:
  assumes "0 < g_batch_size s" "batch_wf (nat (g_batch_size s)) (g_batch s)"
  shows "(fst (loadModel env nCtx nThreads nGpuLayers s0) \<longrightarrow>
            0 < g_batch_size (snd (loadModel env nCtx nThreads nGpuLayers s0)) \<and>
            batch_wf (nat (g_batch_size (snd (loadModel env nCtx nThreads nGpuLayers s0))))
              (g_batch (snd (loadModel env nCtx nThreads nGpuLayers s0)))) \<and>
         (\<exists>s' l. generate be p m cb s = Some (s', l) \<and>
           pc l = Finished \<and> returned l \<noteq> None \<and>
           batch_wf (nat (g_batch_size s)) (g_batch s') \<and>
           (\<forall>ch \<in> set (prefill_log l). 0 < length ch \<and> int (length ch) \<le> g_batch_size s) \<and>
           (\<forall>ch \<in> set (decode_log l). length ch = 1))"
proof -
  let ?P = "\<lambda>c. inv_base s c \<and> inv_prefill (g_batch_size s) c \<and> inv_decode c"
  obtain t where t: "generate be p m cb s = Some t"
    using generate_returns[OF assms(1)] by blast
  obtain s' l where sl: "t = (s', l)"
    by (cases t)
  have init: "?P (s, start_local p m cb)"
    using assms(2) by (simp add: inv_base_start inv_prefill_start inv_decode_start)
  have step: "\<And>c. ?P c \<Longrightarrow> running c \<Longrightarrow> ?P (gen_step be c)"
    using assms(1) gen_step_base gen_step_prefill gen_step_decode by blast
  have fin: "?P t \<and> \<not> running t"
    using t init step by (rule generate_invariant)
  then have "pc l = Finished" "returned l \<noteq> None" "batch_wf (nat (g_batch_size s)) (g_batch s')"
    using sl by (auto simp: running_def inv_base_def)
  moreover have "\<forall>ch \<in> set (prefill_log l). 0 < length ch \<and> int (length ch) \<le> g_batch_size s"
    using fin sl by (auto simp: inv_prefill_def)
  moreover have "\<forall>ch \<in> set (decode_log l). length ch = 1"
    using fin sl by (fastforce simp: inv_decode_def)
  ultimately have "\<exists>s' l. generate be p m cb s = Some (s', l) \<and>
           pc l = Finished \<and> returned l \<noteq> None \<and>
           batch_wf (nat (g_batch_size s)) (g_batch s') \<and>
           (\<forall>ch \<in> set (prefill_log l). 0 < length ch \<and> int (length ch) \<le> g_batch_size s) \<and>
           (\<forall>ch \<in> set (decode_log l). length ch = 1)"
    using t sl by blast
  then show ?thesis
    using loadModel_batch_ready[of env nCtx nThreads nGpuLayers s0] by blast
qed

text \<open>Witness: the demo session comes from a successful load; the call on it ends
  in \<open>Finished\<close>, and its three single-entry batches are the three sampled tokens.\<close>


theorem batch_writes_in_bounds_witness:
  "fst (loadModel demo_env 512 4 0 initial_globals) \<and>
   snd (loadModel demo_env 512 4 0 initial_globals) = demo_loaded \<and>
   0 < g_batch_size demo_loaded \<and>
   batch_wf (nat (g_batch_size demo_loaded)) (g_batch demo_loaded) \<and>
   (\<exists>s' l. generate demo_backend ''Hello'' 3 True demo_loaded = Some (s', l) \<and>
      pc l = Finished \<and> returned l = Some (Inr ''iii'') \<and>
      decode_log l = [[(105, 2, True)], [(105, 3, True)], [(105, 4, True)]])"
proof -
  have ld: "fst (loadModel demo_env 512 4 0 initial_globals)"
    "snd (loadModel demo_env 512 4 0 initial_globals) = demo_loaded"
    by (simp_all add: demo_load)
  have h: "0 < g_batch_size demo_loaded"
    "batch_wf (nat (g_batch_size demo_loaded)) (g_batch demo_loaded)"
    using batch_writes_in_bounds[OF demo_loaded_ok(1,3), of demo_env 512 4 0 initial_globals] ld
    by simp_all
  from batch_writes_in_bounds[OF h, of demo_env 512 4 0 initial_globals demo_backend "''Hello''" 3 True]
  obtain s' l where r: "generate demo_backend ''Hello'' 3 True demo_loaded = Some (s', l)"
    "pc l = Finished"
    by blast
  have "returned l = Some (Inr ''iii'')"
    "decode_log l = [[(105, 2, True)], [(105, 3, True)], [(105, 4, True)]]"
    using demo_generate r(1) by simp_all
  then show ?thesis
    using ld h r by (intro conjI exI[of _ s'] exI[of _ l]) simp_all
qed

end
